theory Spec2Isabelle
  imports Main "HOL-Library.Sublist"
begin

section \<open>The data store\<close>

text \<open>
  The tables of the Prisma schema that the admission engine touches (\<^verbatim>\<open>backup_data.sql\<close>):
  \<^verbatim>\<open>users\<close>, \<^verbatim>\<open>mclasses\<close> and \<^verbatim>\<open>applications\<close>. Identifiers are the UUID strings of the
  source, timestamps are \<^verbatim>\<open>Date.getTime()\<close> values (milliseconds since the epoch) and
  JavaScript integers are unbounded \<open>int\<close>s. Of a user row only the primary key matters
  here (it is the target of the foreign keys).
\<close>

type_synonym id = string
type_synonym date = int

text \<open>\<^verbatim>\<open>CreateMClassData\<close> of the service; an \<^verbatim>\<open>MClass\<close> row extends it by the generated
  primary key.\<close>

record CreateMClassData =
  title :: string
  description :: string
  maxParticipants :: int
  startAt :: date
  endAt :: date
  hostId :: id

record MClass = CreateMClassData +
  class_id :: id

text \<open>\<^verbatim>\<open>CreateApplicationData\<close> of the service; an \<^verbatim>\<open>Application\<close> row extends it by the
  generated primary key and the creation timestamp.\<close>

record CreateApplicationData =
  userId :: id
  classId :: id

record Application = CreateApplicationData +
  app_id :: id
  createdAt :: date

record Database =
  users :: "id list"
  mclasses :: "MClass list"
  applications :: "Application list"

section \<open>Exceptions and the environment of one request\<close>

text \<open>
  What the source throws: a \<^verbatim>\<open>Prisma.PrismaClientKnownRequestError\<close> with its code and
  message, or a plain \<^verbatim>\<open>Error\<close> with its message. Both are \<^verbatim>\<open>instanceof Error\<close>.
\<close>

datatype thrown =
    PrismaClientKnownRequestError string string
  | Error string

fun message :: "thrown \<Rightarrow> string" where
  "message (PrismaClientKnownRequestError c m) = m"
| "message (Error m) = m"

text \<open>
  The places where a request talks to the store. The store may fail there for reasons the
  tables do not determine (lock timeout, serialization conflict, a constraint violated by
  a concurrent writer): \<open>faults\<close> says which error, if any, the store raises at each place
  during this request.
\<close>

datatype call =
    GetClassById
  | TxFindClass
  | TxFindApplication
  | TxCreateApplication
  | DeleteApplication
  | DeleteClass
  | CreateClass
  | FindManyApplications

record Env =
  now :: date
  newId :: id
  newCreatedAt :: date
  faults :: "call \<Rightarrow> thrown option"

definition no_faults :: "call \<Rightarrow> thrown option" where
  "no_faults = (\<lambda>c. None)"

text \<open>\<^verbatim>\<open>String.prototype.includes\<close>.\<close>

fun str_includes :: "string \<Rightarrow> string \<Rightarrow> bool" where
  "str_includes [] needle = (needle = [])"
| "str_includes (c # cs) needle = (prefix needle (c # cs) \<or> str_includes cs needle)"

section \<open>Prisma queries\<close>

definition mClass_findUnique :: "Database \<Rightarrow> id \<Rightarrow> MClass option" where
  "mClass_findUnique db i = find (\<lambda>c. class_id c = i) (mclasses db)"

text \<open>The relation count \<^verbatim>\<open>_count.applications\<close> of a class.\<close>

definition count_applications :: "Database \<Rightarrow> id \<Rightarrow> int" where
  "count_applications db i = int (length (filter (\<lambda>a. classId a = i) (applications db)))"

text \<open>\<^verbatim>\<open>application.findUnique({ where: { unique_user_class_application } })\<close>.\<close>

definition application_findUnique :: "Database \<Rightarrow> id \<Rightarrow> id \<Rightarrow> Application option" where
  "application_findUnique db u c =
     find (\<lambda>a. userId a = u \<and> classId a = c) (applications db)"

text \<open>
  \<^verbatim>\<open>application.create\<close>: the insert is refused by the unique index
  \<^verbatim>\<open>applications_userId_classId_key\<close> (P2002) and by the two foreign keys (P2003).
\<close>

definition application_create :: "Database \<Rightarrow> Application \<Rightarrow> thrown + Database" where
  "application_create db a =
     (if application_findUnique db (userId a) (classId a) \<noteq> None
      then Inl (PrismaClientKnownRequestError ''P2002'' ''Unique constraint failed'')
      else if userId a \<notin> set (users db) \<or> mClass_findUnique db (classId a) = None
      then Inl (PrismaClientKnownRequestError ''P2003'' ''Foreign key constraint failed'')
      else Inr (db\<lparr>applications := applications db @ [a]\<rparr>))"

text \<open>
  \<^verbatim>\<open>application.delete({ where: { unique_user_class_application } })\<close>: P2025 when no row
  matches, else the matching rows go.
\<close>

definition application_delete :: "Database \<Rightarrow> id \<Rightarrow> id \<Rightarrow> thrown + Database" where
  "application_delete db u c =
     (if application_findUnique db u c = None
      then Inl (PrismaClientKnownRequestError ''P2025'' ''Record to delete does not exist'')
      else Inr (db\<lparr>applications :=
                  filter (\<lambda>a. \<not> (userId a = u \<and> classId a = c)) (applications db)\<rparr>))"

text \<open>
  \<^verbatim>\<open>mClass.delete({ where: { id } })\<close>: P2025 when the class is absent; the foreign key
  \<^verbatim>\<open>applications_classId_fkey\<close> is \<^verbatim>\<open>ON DELETE CASCADE\<close>, so the applications of the
  class go with it.
\<close>

definition mClass_delete :: "Database \<Rightarrow> id \<Rightarrow> thrown + Database" where
  "mClass_delete db i =
     (if mClass_findUnique db i = None
      then Inl (PrismaClientKnownRequestError ''P2025'' ''Record to delete does not exist'')
      else Inr (db\<lparr>mclasses := filter (\<lambda>c. class_id c \<noteq> i) (mclasses db),
                   applications := filter (\<lambda>a. classId a \<noteq> i) (applications db)\<rparr>))"

section \<open>ApplicationService.createApplication\<close>

text \<open>
  The body of the \<^verbatim>\<open>$transaction\<close> callback. A throw inside it rolls the transaction
  back, so an \<open>Inl\<close> carries no database.
\<close>

definition createApplication_tx ::
  "Env \<Rightarrow> Database \<Rightarrow> CreateApplicationData \<Rightarrow> thrown + (Application \<times> Database)" where
  "createApplication_tx env db data =
     (case faults env TxFindClass of Some e \<Rightarrow> Inl e | None \<Rightarrow>
      (case mClass_findUnique db (classId data) of
         None \<Rightarrow> Inl (Error ''Class not found'')
       | Some classWithCount \<Rightarrow>
          (let currentApplications = count_applications db (class_id classWithCount) in
           if currentApplications \<ge> maxParticipants classWithCount
           then Inl (Error ''Class is fully booked'')
           else
            (case faults env TxFindApplication of Some e \<Rightarrow> Inl e | None \<Rightarrow>
             (case application_findUnique db (userId data) (classId data) of
                Some existingApplication \<Rightarrow> Inl (Error ''User has already applied to this class'')
              | None \<Rightarrow>
                 (case faults env TxCreateApplication of Some e \<Rightarrow> Inl e | None \<Rightarrow>
                  (let newApplication =
                         \<lparr>userId = userId data, classId = classId data,
                          app_id = newId env, createdAt = newCreatedAt env\<rparr>
                   in case application_create db newApplication of
                        Inl e \<Rightarrow> Inl e
                      | Inr db' \<Rightarrow> Inr (newApplication, db'))))))))"

text \<open>
  The \<^verbatim>\<open>catch\<close> block: P2002 and P2003 are replaced by new errors, everything else is
  thrown again as it is (the message test of the second \<^verbatim>\<open>if\<close> rethrows the same error as
  the final \<^verbatim>\<open>throw\<close> does).
\<close>

fun createApplication_catch :: "thrown \<Rightarrow> thrown" where
  "createApplication_catch (PrismaClientKnownRequestError code m) =
     (if code = ''P2002'' then Error ''User has already applied to this class''
      else if code = ''P2003'' then Error ''Invalid user ID or class ID''
      else PrismaClientKnownRequestError code m)"
| "createApplication_catch (Error m) = Error m"

definition createApplication ::
  "Env \<Rightarrow> Database \<Rightarrow> CreateApplicationData \<Rightarrow> thrown + (Application \<times> Database)" where
  "createApplication env db data =
     (case createApplication_tx env db data of
        Inr r \<Rightarrow> Inr r
      | Inl error \<Rightarrow> Inl (createApplication_catch error))"

section \<open>ValidationUtil.validateUUID\<close>

record ValidationResult =
  isValid :: bool
  errors :: "string list"

text \<open>
  A regular expression that is a fixed sequence of character classes, anchored at both
  ends, is the list of its classes; a string matches when it has that length and each
  character is in its class. The flag \<^verbatim>\<open>i\<close> of \<^verbatim>\<open>uuidRegex\<close> is written into the classes.
\<close>

definition hexDigit :: "char \<Rightarrow> bool" where
  "hexDigit c = (c \<in> set ''0123456789abcdefABCDEF'')"

definition uuidRegex :: "(char \<Rightarrow> bool) list" where
  "uuidRegex =
     replicate 8 hexDigit @ [\<lambda>c. c = CHR ''-''] @
     replicate 4 hexDigit @ [\<lambda>c. c = CHR ''-''] @
     [\<lambda>c. c \<in> set ''12345''] @ replicate 3 hexDigit @ [\<lambda>c. c = CHR ''-''] @
     [\<lambda>c. c \<in> set ''89abAB''] @ replicate 3 hexDigit @ [\<lambda>c. c = CHR ''-''] @
     replicate 12 hexDigit"

definition regex_test :: "(char \<Rightarrow> bool) list \<Rightarrow> string \<Rightarrow> bool" where
  "regex_test r s = list_all2 (\<lambda>p c. p c) r s"

definition validateUUID :: "string \<Rightarrow> ValidationResult" where
  "validateUUID uuid =
     (if uuid = [] then \<lparr>isValid = False, errors = [''UUID is required'']\<rparr>
      else let errs = (if \<not> regex_test uuidRegex uuid then [''Invalid UUID format''] else [])
           in \<lparr>isValid = (length errs = 0), errors = errs\<rparr>)"

section \<open>Responses\<close>

text \<open>
  A response is the HTTP status and the JSON body. An error body carries
  \<^verbatim>\<open>error.code\<close>, \<^verbatim>\<open>error.message\<close> and \<^verbatim>\<open>error.details\<close>; the success bodies carry the
  rows the handler puts into \<^verbatim>\<open>data\<close>. Log entries and the confirmation e-mail, which is
  sent without being awaited and whose failure is only logged, are left out: they change
  neither the response nor the tables.
\<close>

record MClassWithStats = MClass +
  currentParticipants :: int

text \<open>The values \<^verbatim>\<open>Math.ceil(total / limit)\<close> can take: an integer, or the results of a
  division by zero.\<close>

datatype js_number = Finite int | Infinity | NaN

record 'a Page =
  items :: "'a list"
  total :: int
  totalPages :: js_number

datatype body =
    ApplicationSubmitted Application MClassWithStats
  | ApplicationCancelled MClassWithStats
  | ClassDeleted id string
  | ClassCreated MClass
  | ApplicationList "Application Page"
  | ErrorBody string string "string list"

type_synonym response = "nat \<times> body"

definition createValidationError :: "string list \<Rightarrow> body" where
  "createValidationError errs = ErrorBody ''VALIDATION_ERROR'' ''Validation failed'' errs"

section \<open>MClassService\<close>

definition getClassById :: "Env \<Rightarrow> Database \<Rightarrow> id \<Rightarrow> thrown + MClassWithStats option" where
  "getClassById env db i =
     (case faults env GetClassById of Some e \<Rightarrow> Inl e | None \<Rightarrow>
      (case mClass_findUnique db i of
         None \<Rightarrow> Inr None
       | Some mclass \<Rightarrow>
           Inr (Some (MClass.extend mclass
                  (MClassWithStats.fields (count_applications db (class_id mclass)))))))"

fun deleteClass_catch :: "thrown \<Rightarrow> thrown" where
  "deleteClass_catch (PrismaClientKnownRequestError code m) =
     (if code = ''P2025'' then Error ''Class not found''
      else PrismaClientKnownRequestError code m)"
| "deleteClass_catch (Error m) = Error m"

definition deleteClass :: "Env \<Rightarrow> Database \<Rightarrow> id \<Rightarrow> thrown + Database" where
  "deleteClass env db i =
     (case faults env DeleteClass of Some e \<Rightarrow> Inl (deleteClass_catch e) | None \<Rightarrow>
      (case mClass_delete db i of
         Inl e \<Rightarrow> Inl (deleteClass_catch e)
       | Inr db' \<Rightarrow> Inr db'))"

definition isUserHost :: "Database \<Rightarrow> id \<Rightarrow> id \<Rightarrow> bool" where
  "isUserHost db c u =
     (case mClass_findUnique db c of None \<Rightarrow> False | Some mclass \<Rightarrow> hostId mclass = u)"

section \<open>ApplicationService.cancelApplication\<close>

fun cancelApplication_catch :: "thrown \<Rightarrow> thrown" where
  "cancelApplication_catch (PrismaClientKnownRequestError code m) =
     (if code = ''P2025'' then Error ''Application not found''
      else PrismaClientKnownRequestError code m)"
| "cancelApplication_catch (Error m) = Error m"

definition cancelApplication :: "Env \<Rightarrow> Database \<Rightarrow> id \<Rightarrow> id \<Rightarrow> thrown + Database" where
  "cancelApplication env db u c =
     (case faults env DeleteApplication of Some e \<Rightarrow> Inl (cancelApplication_catch e) | None \<Rightarrow>
      (case application_delete db u c of
         Inl e \<Rightarrow> Inl (cancelApplication_catch e)
       | Inr db' \<Rightarrow> Inr db'))"

section \<open>ApplicationController\<close>

text \<open>The \<^verbatim>\<open>catch\<close> block of \<^verbatim>\<open>applyToClass\<close>: the response is chosen by the message.\<close>

definition applyToClass_catch :: "thrown \<Rightarrow> response" where
  "applyToClass_catch error =
     (if str_includes (message error) ''already applied''
      then (409, ErrorBody ''CONFLICT'' ''You have already applied to this class'' [])
      else if str_includes (message error) ''Class is fully booked''
      then (409, ErrorBody ''CAPACITY_EXCEEDED''
                   ''Class is fully booked. No more applications can be accepted.'' [])
      else if str_includes (message error) ''Class not found''
      then (404, ErrorBody ''NOT_FOUND'' ''Class not found'' [])
      else if str_includes (message error) ''Invalid user ID or class ID''
      then (400, ErrorBody ''VALIDATION_ERROR'' ''Invalid class or user information'' [])
      else (500, ErrorBody ''INTERNAL_SERVER_ERROR'' ''Failed to submit application'' []))"

text \<open>
  \<^verbatim>\<open>applyToClass\<close>, for the authenticated user \<open>u\<close> and the route parameter \<open>c\<close>. It
  returns the response and the tables after the request.
\<close>

definition applyToClass :: "Env \<Rightarrow> Database \<Rightarrow> id \<Rightarrow> id \<Rightarrow> response \<times> Database" where
  "applyToClass env db u c =
     (if c = [] then ((400, createValidationError [''Class ID is required'']), db)
      else if \<not> isValid (validateUUID c)
      then ((400, createValidationError (errors (validateUUID c))), db)
      else
       (case getClassById env db c of
          Inl error \<Rightarrow> (applyToClass_catch error, db)
        | Inr None \<Rightarrow> ((404, ErrorBody ''NOT_FOUND'' ''Class not found'' []), db)
        | Inr (Some mclass) \<Rightarrow>
           (if startAt mclass \<le> now env
            then ((400, ErrorBody ''VALIDATION_ERROR''
                          ''Cannot apply to a class that has already started'' []), db)
            else
             (case createApplication env db \<lparr>userId = u, classId = c\<rparr> of
                Inl error \<Rightarrow> (applyToClass_catch error, db)
              | Inr (application, db') \<Rightarrow>
                  ((201, ApplicationSubmitted application mclass), db')))))"

definition cancelApplication_controller ::
  "Env \<Rightarrow> Database \<Rightarrow> id \<Rightarrow> id \<Rightarrow> response \<times> Database" where
  "cancelApplication_controller env db u c =
     (if c = [] then ((400, createValidationError [''Class ID is required'']), db)
      else if \<not> isValid (validateUUID c)
      then ((400, createValidationError (errors (validateUUID c))), db)
      else
       (let catch = (\<lambda>error.
              if str_includes (message error) ''not found''
              then (404, ErrorBody ''NOT_FOUND'' ''Application not found'' [])
              else (500, ErrorBody ''INTERNAL_SERVER_ERROR'' ''Failed to cancel application'' []))
        in case getClassById env db c of
          Inl error \<Rightarrow> (catch error, db)
        | Inr None \<Rightarrow> ((404, ErrorBody ''NOT_FOUND'' ''Class not found'' []), db)
        | Inr (Some mclass) \<Rightarrow>
           (if startAt mclass \<le> now env
            then ((400, ErrorBody ''VALIDATION_ERROR''
                     ''Cannot cancel application for a class that has already started'' []), db)
            else
             (case cancelApplication env db u c of
                Inl error \<Rightarrow> (catch error, db)
              | Inr db' \<Rightarrow> ((200, ApplicationCancelled mclass), db')))))"

section \<open>MClassController.deleteClass\<close>

definition deleteClass_controller :: "Env \<Rightarrow> Database \<Rightarrow> id \<Rightarrow> response \<times> Database" where
  "deleteClass_controller env db c =
     (if c = [] then ((400, createValidationError [''Class ID is required'']), db)
      else if \<not> isValid (validateUUID c)
      then ((400, createValidationError (errors (validateUUID c))), db)
      else
       (let catch = (\<lambda>error.
              if str_includes (message error) ''not found''
              then (404, ErrorBody ''NOT_FOUND'' ''Class not found'' [])
              else (500, ErrorBody ''INTERNAL_SERVER_ERROR'' ''Failed to delete M-Class'' []))
        in case getClassById env db c of
          Inl error \<Rightarrow> (catch error, db)
        | Inr None \<Rightarrow> ((404, ErrorBody ''NOT_FOUND'' ''Class not found'' []), db)
        | Inr (Some existingClass) \<Rightarrow>
           (case deleteClass env db c of
              Inl error \<Rightarrow> (catch error, db)
            | Inr db' \<Rightarrow> ((200, ClassDeleted c (title existingClass)), db'))))"

section \<open>Creating a class\<close>

text \<open>
  \<^verbatim>\<open>mClass.create\<close>: refused by the foreign key \<^verbatim>\<open>mclasses_hostId_fkey\<close> (P2003) and by
  the primary key (P2002). Before that, the values must fit their columns: a date after
  the year 9999 (later than 253402300799999 ms) cannot be passed to the store as a
  \<^verbatim>\<open>DateTime\<close>, and \<^verbatim>\<open>maxParticipants\<close> is a 32-bit \<^verbatim>\<open>integer\<close> column (P2020). Of these
  two errors nothing but the absence of the text \<^verbatim>\<open>already exists\<close> in the message
  matters to the callers.
\<close>

definition mClass_create :: "Database \<Rightarrow> MClass \<Rightarrow> thrown + Database" where
  "mClass_create db row =
     (if startAt row > 253402300799999 \<or> endAt row > 253402300799999
      then Inl (Error ''Could not convert argument value to DateTime'')
      else if maxParticipants row < - 2147483648 \<or> maxParticipants row > 2147483647
      then Inl (PrismaClientKnownRequestError ''P2020'' ''Value out of range for the type'')
      else if hostId row \<notin> set (users db)
      then Inl (PrismaClientKnownRequestError ''P2003'' ''Foreign key constraint failed'')
      else if mClass_findUnique db (class_id row) \<noteq> None
      then Inl (PrismaClientKnownRequestError ''P2002'' ''Unique constraint failed'')
      else Inr (db\<lparr>mclasses := mclasses db @ [row]\<rparr>))"

fun createClass_catch :: "thrown \<Rightarrow> thrown" where
  "createClass_catch (PrismaClientKnownRequestError code m) =
     (if code = ''P2002'' then Error ''A class with this title already exists''
      else PrismaClientKnownRequestError code m)"
| "createClass_catch (Error m) = Error m"

definition createClass ::
  "Env \<Rightarrow> Database \<Rightarrow> CreateMClassData \<Rightarrow> thrown + (MClass \<times> Database)" where
  "createClass env db data =
     (case faults env CreateClass of Some e \<Rightarrow> Inl (createClass_catch e) | None \<Rightarrow>
      (let mclass = CreateMClassData.extend data (MClass.fields (newId env))
       in case mClass_create db mclass of
            Inl e \<Rightarrow> Inl (createClass_catch e)
          | Inr db' \<Rightarrow> Inr (mclass, db')))"

text \<open>
  The request body of \<^verbatim>\<open>POST /api/mclasses\<close> as \<^verbatim>\<open>MClassController.createClass\<close> sees it
  once \<^verbatim>\<open>validateRequestBody\<close> has found the five fields present: the two strings after
  \<^verbatim>\<open>sanitizeString\<close>, \<^verbatim>\<open>maxParticipants\<close> (\<open>None\<close> when \<^verbatim>\<open>Number.isInteger\<close> is false) and
  the two dates after \<^verbatim>\<open>new Date(...)\<close> (\<open>None\<close> for an invalid date, whose time is NaN).
\<close>

record CreateClassBody =
  body_title :: string
  body_description :: string
  body_maxParticipants :: "int option"
  body_startAt :: "date option"
  body_endAt :: "date option"

definition createClass_controller ::
  "Env \<Rightarrow> Database \<Rightarrow> id \<Rightarrow> CreateClassBody \<Rightarrow> response \<times> Database" where
  "createClass_controller env db u b =
     (if body_title b = [] \<or> length (body_title b) < 3 \<or> length (body_title b) > 100
      then ((400, createValidationError [''Title must be between 3 and 100 characters'']), db)
      else if body_description b = [] \<or> length (body_description b) > 500
      then ((400, createValidationError [''Description must not exceed 500 characters'']), db)
      else
       (case body_maxParticipants b of
          None \<Rightarrow>
            ((400, createValidationError [''Maximum participants must be a positive integer'']), db)
        | Some n \<Rightarrow>
           (if n < 1
            then ((400, createValidationError
                          [''Maximum participants must be a positive integer'']), db)
            else
             (case body_startAt b of
                None \<Rightarrow>
                  ((400, createValidationError [''Start date must be a valid ISO date'']), db)
              | Some startDate \<Rightarrow>
                 (case body_endAt b of
                    None \<Rightarrow>
                      ((400, createValidationError [''End date must be a valid ISO date'']), db)
                  | Some endDate \<Rightarrow>
                     (if startDate \<le> now env
                      then ((400, createValidationError
                                    [''Start date must be in the future'']), db)
                      else if endDate \<le> startDate
                      then ((400, createValidationError
                                    [''End date must be after start date'']), db)
                      else
                       (case createClass env db
                               \<lparr>title = body_title b, description = body_description b,
                                maxParticipants = n, startAt = startDate, endAt = endDate,
                                hostId = u\<rparr> of
                          Inl error \<Rightarrow>
                            (if str_includes (message error) ''already exists''
                             then ((409, ErrorBody ''CONFLICT''
                                           ''A class with this title already exists'' []), db)
                             else ((500, ErrorBody ''INTERNAL_SERVER_ERROR''
                                           ''Failed to create M-Class'' []), db))
                        | Inr (newClass, db') \<Rightarrow> ((201, ClassCreated newClass), db'))))))))"

text \<open>
  The two custom validators of \<^verbatim>\<open>mclassValidation.create\<close> in
  \<^verbatim>\<open>middleware/validation.ts\<close>, each returning the message it throws, if any. The schema
  is exported but mounted on no route: \<^verbatim>\<open>routes/mclass.ts\<close> has
  \<^verbatim>\<open>mclassRouter.post('/', strictLimiter, ...adminOnly, mclassController.createClass)\<close>.
\<close>

definition mclassValidation_create_startAt :: "date \<Rightarrow> date \<Rightarrow> date \<Rightarrow> string option" where
  "mclassValidation_create_startAt t_now t_start t_end =
     (if t_start \<le> t_now then Some ''Start date must be in the future''
      else if t_start \<ge> t_end then Some ''Start date must be before end date''
      else None)"

definition mclassValidation_create_endAt :: "date \<Rightarrow> date \<Rightarrow> date \<Rightarrow> string option" where
  "mclassValidation_create_endAt t_now t_start t_end =
     (let minDuration = 30 * 60 * 1000; maxDuration = 8 * 60 * 60 * 1000 in
      if t_end \<le> t_now then Some ''End date must be in the future''
      else if t_end - t_start < minDuration
      then Some ''Class duration must be at least 30 minutes''
      else if t_end - t_start > maxDuration
      then Some ''Class duration must not exceed 8 hours''
      else None)"

section \<open>Occupancy statistics\<close>

text \<open>
  \<^verbatim>\<open>ApplicationService.getApplicationStats\<close> and \<^verbatim>\<open>MClassService.getClassStats\<close>, as
  functions of the tables: \<open>None\<close> is the \<^verbatim>\<open>null\<close> returned for a class that does not
  exist. The field names of the two results carry a suffix, since they coincide in the
  source.
\<close>

record ApplicationStats =
  currentApplications :: int
  maxParticipants_a :: int
  availableSpots_a :: int
  isFullyBooked_a :: bool

definition getApplicationStats :: "Database \<Rightarrow> id \<Rightarrow> ApplicationStats option" where
  "getApplicationStats db c =
     (case mClass_findUnique db c of
        None \<Rightarrow> None
      | Some result \<Rightarrow>
         (let currentApplications = count_applications db (class_id result);
              availableSpots = maxParticipants result - currentApplications
          in Some \<lparr>currentApplications = currentApplications,
                   maxParticipants_a = maxParticipants result,
                   availableSpots_a = max 0 availableSpots,
                   isFullyBooked_a = (availableSpots \<le> 0)\<rparr>))"

record ClassStats =
  currentParticipants_c :: int
  maxParticipants_c :: int
  availableSpots_c :: int
  isFullyBooked_c :: bool

definition getClassStats :: "Database \<Rightarrow> id \<Rightarrow> ClassStats option" where
  "getClassStats db i =
     (case mClass_findUnique db i of
        None \<Rightarrow> None
      | Some mclass \<Rightarrow>
         (let currentParticipants = count_applications db (class_id mclass);
              availableSpots = maxParticipants mclass - currentParticipants
          in Some \<lparr>currentParticipants_c = currentParticipants,
                   maxParticipants_c = maxParticipants mclass,
                   availableSpots_c = max 0 availableSpots,
                   isFullyBooked_c = (availableSpots \<le> 0)\<rparr>))"

text \<open>The two derived fields of a list entry of \<^verbatim>\<open>MClassController.getClasses\<close>.\<close>

definition getClasses_availableSpots :: "MClassWithStats \<Rightarrow> int" where
  "getClasses_availableSpots mclass = max 0 (maxParticipants mclass - currentParticipants mclass)"

definition getClasses_isFullyBooked :: "MClassWithStats \<Rightarrow> bool" where
  "getClasses_isFullyBooked mclass = (currentParticipants mclass \<ge> maxParticipants mclass)"

section \<open>Listing applications\<close>

text \<open>
  \<^verbatim>\<open>findMany\<close> with \<^verbatim>\<open>where\<close>, \<^verbatim>\<open>orderBy: { createdAt }\<close>, \<^verbatim>\<open>skip\<close> and \<^verbatim>\<open>take\<close>.

  The query orders by \<^verbatim>\<open>createdAt\<close> alone, so the order of rows with equal timestamps is
  the store's choice. That choice is an input of the model: \<open>tie\<close> gives each row the rank
  the store breaks ties by. Sorting by \<open>tie\<close> first and then, with a stable sort, by the
  timestamp gives the rows ordered by timestamp with ties in the store's order.
\<close>

definition orderBy_createdAt_asc ::
  "(Application \<Rightarrow> nat) \<Rightarrow> Application list \<Rightarrow> Application list" where
  "orderBy_createdAt_asc tie rows = sort_key createdAt (sort_key tie rows)"

definition orderBy_createdAt_desc ::
  "(Application \<Rightarrow> nat) \<Rightarrow> Application list \<Rightarrow> Application list" where
  "orderBy_createdAt_desc tie rows = sort_key (\<lambda>a. - createdAt a) (sort_key tie rows)"

text \<open>
  \<^verbatim>\<open>skip\<close> and \<^verbatim>\<open>take\<close> on the ordered rows. Prisma rejects a negative \<^verbatim>\<open>skip\<close> (the query
  throws, \<open>None\<close>); a negative \<^verbatim>\<open>take\<close> reads from the end of the ordered rows: the last
  \<open>- take\<close> rows before the \<open>skip\<close> last ones, in the order of the listing.
\<close>

definition skip_take :: "int \<Rightarrow> int \<Rightarrow> 'a list \<Rightarrow> 'a list option" where
  "skip_take skip n xs =
     (if skip < 0 then None
      else if 0 \<le> n then Some (take (nat n) (drop (nat skip) xs))
      else Some (rev (take (nat (- n)) (drop (nat skip) (rev xs)))))"

text \<open>
  \<^verbatim>\<open>Math.ceil(total / limit)\<close> for a count \<open>total\<close>: the division by zero gives NaN for
  \<open>0 / 0\<close> and Infinity otherwise.
\<close>

definition totalPages_of :: "nat \<Rightarrow> int \<Rightarrow> js_number" where
  "totalPages_of n limit =
     (if limit = 0 then (if n = 0 then NaN else Infinity)
      else Finite (- ((- int n) div limit)))"

text \<open>
  The two services. \<open>None\<close> stands for a thrown error: the handlers answer every error
  of these calls with the same 500, so its kind is not kept. \<^verbatim>\<open>Promise.all\<close> of the
  \<^verbatim>\<open>findMany\<close> and the \<^verbatim>\<open>count\<close> fails when the store fails at either query. The rows
  are returned without the joined class or user.
\<close>

definition getClassApplications ::
  "Env \<Rightarrow> (Application \<Rightarrow> nat) \<Rightarrow> Database \<Rightarrow> id \<Rightarrow> int \<Rightarrow> int \<Rightarrow> Application Page option" where
  "getClassApplications env tie db c page limit =
     (let skip = (page - 1) * limit;
          rows = filter (\<lambda>a. classId a = c) (applications db)
      in case faults env FindManyApplications of
           Some e \<Rightarrow> None
         | None \<Rightarrow>
            (case skip_take skip limit (orderBy_createdAt_asc tie rows) of
               None \<Rightarrow> None
             | Some found \<Rightarrow>
                 Some \<lparr>items = found,
                       total = int (length rows),
                       totalPages = totalPages_of (length rows) limit\<rparr>))"

definition getUserApplications ::
  "Env \<Rightarrow> (Application \<Rightarrow> nat) \<Rightarrow> Database \<Rightarrow> id \<Rightarrow> int \<Rightarrow> int \<Rightarrow> Application Page option" where
  "getUserApplications env tie db u page limit =
     (let skip = (page - 1) * limit;
          rows = filter (\<lambda>a. userId a = u) (applications db)
      in case faults env FindManyApplications of
           Some e \<Rightarrow> None
         | None \<Rightarrow>
            (case skip_take skip limit (orderBy_createdAt_desc tie rows) of
               None \<Rightarrow> None
             | Some found \<Rightarrow>
                 Some \<lparr>items = found,
                       total = int (length rows),
                       totalPages = totalPages_of (length rows) limit\<rparr>))"

text \<open>
  The query parameters after \<^verbatim>\<open>parseInt\<close> (\<open>None\<close> for NaN):
  \<^verbatim>\<open>parseInt(page) || 1\<close> and \<^verbatim>\<open>Math.min(parseInt(limit) || 10, 50)\<close>.
\<close>

definition page_param :: "int option \<Rightarrow> int" where
  "page_param q = (case q of None \<Rightarrow> 1 | Some n \<Rightarrow> if n = 0 then 1 else n)"

definition limit_param :: "int option \<Rightarrow> int" where
  "limit_param q = min (case q of None \<Rightarrow> 10 | Some n \<Rightarrow> if n = 0 then 10 else n) 50"

definition getUserApplications_controller ::
  "Env \<Rightarrow> (Application \<Rightarrow> nat) \<Rightarrow> Database \<Rightarrow> id \<Rightarrow> int option \<Rightarrow> int option \<Rightarrow> response" where
  "getUserApplications_controller env tie db u pageQ limitQ =
     (let page = page_param pageQ; limit = limit_param limitQ in
      if page < 1 \<or> limit < 1
      then (400, createValidationError [''Page and limit must be positive integers''])
      else
       (case getUserApplications env tie db u page limit of
          None \<Rightarrow>
            (500, ErrorBody ''INTERNAL_SERVER_ERROR'' ''Failed to retrieve applications'' [])
        | Some result \<Rightarrow> (200, ApplicationList result)))"

definition getClassApplications_controller ::
  "Env \<Rightarrow> (Application \<Rightarrow> nat) \<Rightarrow> Database \<Rightarrow> id \<Rightarrow> bool \<Rightarrow> id \<Rightarrow> int option \<Rightarrow> int option
     \<Rightarrow> response" where
  "getClassApplications_controller env tie db u isAdmin c pageQ limitQ =
     (if c = [] then (400, createValidationError [''Class ID is required''])
      else if \<not> isValid (validateUUID c)
      then (400, createValidationError (errors (validateUUID c)))
      else
       (case getClassById env db c of
          Inl error \<Rightarrow>
            (500, ErrorBody ''INTERNAL_SERVER_ERROR'' ''Failed to retrieve class applications'' [])
        | Inr None \<Rightarrow> (404, ErrorBody ''NOT_FOUND'' ''Class not found'' [])
        | Inr (Some mclass) \<Rightarrow>
           (let isHost = isUserHost db c u in
            if \<not> isAdmin \<and> \<not> isHost
            then (403, ErrorBody ''FORBIDDEN''
                         ''Only admin or class host can view applications'' [])
            else
             (let page = page_param pageQ; limit = limit_param limitQ in
              if page < 1 \<or> limit < 1
              then (400, createValidationError [''Page and limit must be positive integers''])
              else
               (case getClassApplications env tie db c page limit of
                  None \<Rightarrow>
                    (500, ErrorBody ''INTERNAL_SERVER_ERROR''
                            ''Failed to retrieve class applications'' [])
                | Some result \<Rightarrow> (200, ApplicationList result))))))"

section \<open>An apply call among other transactions\<close>

text \<open>
  \<^verbatim>\<open>createApplication\<close> calls \<^verbatim>\<open>$transaction\<close> without an \<^verbatim>\<open>isolationLevel\<close>, on a plain
  \<^verbatim>\<open>PrismaClient\<close>, and its queries take no lock: the transaction runs at the default level
  of the PostgreSQL store, READ COMMITTED, where every statement reads what is committed
  at the moment it runs. Other requests may commit between the statements of an apply
  call. \<open>applyToClass_at\<close> is \<open>applyToClass\<close> with the tables as each statement finds them:
  \<open>db0\<close> at \<^verbatim>\<open>getClassById\<close> in the handler, \<open>db1\<close> at the class read with its count, \<open>db2\<close>
  at the duplicate lookup and \<open>db3\<close> at the insert, whose constraints the store checks
  against \<open>db3\<close>. The tables returned are \<open>db3\<close> with the new row.
\<close>

definition createApplication_tx_at ::
  "Env \<Rightarrow> Database \<Rightarrow> Database \<Rightarrow> Database \<Rightarrow> CreateApplicationData
     \<Rightarrow> thrown + (Application \<times> Database)" where
  "createApplication_tx_at env db1 db2 db3 data =
     (case faults env TxFindClass of Some e \<Rightarrow> Inl e | None \<Rightarrow>
      (case mClass_findUnique db1 (classId data) of
         None \<Rightarrow> Inl (Error ''Class not found'')
       | Some classWithCount \<Rightarrow>
          (let currentApplications = count_applications db1 (class_id classWithCount) in
           if currentApplications \<ge> maxParticipants classWithCount
           then Inl (Error ''Class is fully booked'')
           else
            (case faults env TxFindApplication of Some e \<Rightarrow> Inl e | None \<Rightarrow>
             (case application_findUnique db2 (userId data) (classId data) of
                Some existingApplication \<Rightarrow> Inl (Error ''User has already applied to this class'')
              | None \<Rightarrow>
                 (case faults env TxCreateApplication of Some e \<Rightarrow> Inl e | None \<Rightarrow>
                  (let newApplication =
                         \<lparr>userId = userId data, classId = classId data,
                          app_id = newId env, createdAt = newCreatedAt env\<rparr>
                   in case application_create db3 newApplication of
                        Inl e \<Rightarrow> Inl e
                      | Inr db' \<Rightarrow> Inr (newApplication, db'))))))))"

definition createApplication_at ::
  "Env \<Rightarrow> Database \<Rightarrow> Database \<Rightarrow> Database \<Rightarrow> CreateApplicationData
     \<Rightarrow> thrown + (Application \<times> Database)" where
  "createApplication_at env db1 db2 db3 data =
     (case createApplication_tx_at env db1 db2 db3 data of
        Inr r \<Rightarrow> Inr r
      | Inl error \<Rightarrow> Inl (createApplication_catch error))"

definition applyToClass_at ::
  "Env \<Rightarrow> Database \<Rightarrow> Database \<Rightarrow> Database \<Rightarrow> Database \<Rightarrow> id \<Rightarrow> id
     \<Rightarrow> response \<times> Database" where
  "applyToClass_at env db0 db1 db2 db3 u c =
     (if c = [] then ((400, createValidationError [''Class ID is required'']), db0)
      else if \<not> isValid (validateUUID c)
      then ((400, createValidationError (errors (validateUUID c))), db0)
      else
       (case getClassById env db0 c of
          Inl error \<Rightarrow> (applyToClass_catch error, db0)
        | Inr None \<Rightarrow> ((404, ErrorBody ''NOT_FOUND'' ''Class not found'' []), db0)
        | Inr (Some mclass) \<Rightarrow>
           (if startAt mclass \<le> now env
            then ((400, ErrorBody ''VALIDATION_ERROR''
                          ''Cannot apply to a class that has already started'' []), db0)
            else
             (case createApplication_at env db1 db2 db3 \<lparr>userId = u, classId = c\<rparr> of
                Inl error \<Rightarrow> (applyToClass_catch error, db3)
              | Inr (application, db') \<Rightarrow>
                  ((201, ApplicationSubmitted application mclass), db')))))"

section \<open>Sequences of requests\<close>

text \<open>
  The three requests that change the applications of a class, each in its own
  environment. \<open>serve\<close> is the serial schedule: every request runs to its end before the
  next one starts. The schedules in which the statements of two apply calls alternate
  are those of \<open>applyToClass_at\<close>.
\<close>

datatype request =
    Apply id id
  | Cancel id id
  | DeleteClassRequest id

fun handle :: "Database \<Rightarrow> Env \<times> request \<Rightarrow> response \<times> Database" where
  "handle db (env, Apply u c) = applyToClass env db u c"
| "handle db (env, Cancel u c) = cancelApplication_controller env db u c"
| "handle db (env, DeleteClassRequest c) = deleteClass_controller env db c"

fun serve :: "Database \<Rightarrow> (Env \<times> request) list \<Rightarrow> response list \<times> Database" where
  "serve db [] = ([], db)"
| "serve db (r # rs) =
     (let (resp, db') = handle db r;
          (resps, db'') = serve db' rs
      in (resp # resps, db''))"

section \<open>Invariants and outcomes\<close>

text \<open>The primary key of \<^verbatim>\<open>mclasses\<close> (\<^verbatim>\<open>mclasses_pkey\<close>): no two rows share an id.\<close>

definition mclasses_pkey :: "Database \<Rightarrow> bool" where
  "mclasses_pkey db = distinct (map class_id (mclasses db))"

text \<open>Occupancy never above capacity, for every class of the store.\<close>

definition capacity_respected :: "Database \<Rightarrow> bool" where
  "capacity_respected db =
     list_all (\<lambda>c. count_applications db (class_id c) \<le> maxParticipants c) (mclasses db)"

text \<open>At most one application per pair of user and class.\<close>

definition one_application_per_pair :: "Database \<Rightarrow> bool" where
  "one_application_per_pair db =
     distinct (map (\<lambda>a. (userId a, classId a)) (applications db))"

text \<open>How the outcomes of the specification show in a response.\<close>

definition is_Admitted :: "response \<Rightarrow> bool" where
  "is_Admitted r = (fst r = 201)"

definition is_ClassNotFound :: "response \<Rightarrow> bool" where
  "is_ClassNotFound r = (r = (404, ErrorBody ''NOT_FOUND'' ''Class not found'' []))"

definition is_ClassAlreadyStarted :: "response \<Rightarrow> bool" where
  "is_ClassAlreadyStarted r =
     (r = (400, ErrorBody ''VALIDATION_ERROR''
                  ''Cannot apply to a class that has already started'' []))"

definition is_AlreadyApplied :: "response \<Rightarrow> bool" where
  "is_AlreadyApplied r =
     (r = (409, ErrorBody ''CONFLICT'' ''You have already applied to this class'' []))"

definition is_CapacityExceeded :: "response \<Rightarrow> bool" where
  "is_CapacityExceeded r =
     (r = (409, ErrorBody ''CAPACITY_EXCEEDED''
                  ''Class is fully booked. No more applications can be accepted.'' []))"

definition is_ApplicationNotFound :: "response \<Rightarrow> bool" where
  "is_ApplicationNotFound r = (r = (404, ErrorBody ''NOT_FOUND'' ''Application not found'' []))"

section \<open>A small store for concrete runs\<close>

definition demo_id :: id where
  "demo_id = ''11111111-1111-4111-8111-111111111111''"

definition other_id :: id where
  "other_id = ''22222222-2222-4222-8222-222222222222''"

definition demo_class :: MClass where
  "demo_class =
     \<lparr>title = ''Pottery'', description = ''An evening at the wheel'', maxParticipants = 2,
      startAt = 1000, endAt = 3601000, hostId = ''admin'', class_id = demo_id\<rparr>"

definition demo_db :: Database where
  "demo_db =
     \<lparr>users = [''admin'', ''alice'', ''bob'', ''carol''], mclasses = [demo_class],
      applications = []\<rparr>"

definition demo_env :: Env where
  "demo_env = \<lparr>now = 0, newId = ''a-9'', newCreatedAt = 0, faults = no_faults\<rparr>"

text \<open>The same store once alice has applied, and once alice and bob hold the two seats.\<close>

definition demo_one :: Database where
  "demo_one =
     demo_db\<lparr>applications :=
       [\<lparr>userId = ''alice'', classId = demo_id, app_id = ''a-0'', createdAt = 10\<rparr>]\<rparr>"

definition demo_full :: Database where
  "demo_full =
     demo_db\<lparr>applications :=
       [\<lparr>userId = ''alice'', classId = demo_id, app_id = ''a-0'', createdAt = 10\<rparr>,
        \<lparr>userId = ''bob'', classId = demo_id, app_id = ''a-1'', createdAt = 20\<rparr>]\<rparr>"

text \<open>
  Two apply calls for the last seat of the class, by bob and by carol. Both read the class
  and its count while alice's application is the only one; bob's transaction commits
  first (\<open>demo_bob\<close>), then carol's duplicate lookup and insert run (\<open>demo_bob_carol\<close>).
\<close>

definition demo_env_carol :: Env where
  "demo_env_carol = demo_env\<lparr>newId := ''a-8'', newCreatedAt := 1\<rparr>"

definition demo_bob :: Database where
  "demo_bob =
     demo_db\<lparr>applications :=
       [\<lparr>userId = ''alice'', classId = demo_id, app_id = ''a-0'', createdAt = 10\<rparr>,
        \<lparr>userId = ''bob'', classId = demo_id, app_id = ''a-9'', createdAt = 0\<rparr>]\<rparr>"

definition demo_bob_carol :: Database where
  "demo_bob_carol =
     demo_db\<lparr>applications :=
       [\<lparr>userId = ''alice'', classId = demo_id, app_id = ''a-0'', createdAt = 10\<rparr>,
        \<lparr>userId = ''bob'', classId = demo_id, app_id = ''a-9'', createdAt = 0\<rparr>,
        \<lparr>userId = ''carol'', classId = demo_id, app_id = ''a-8'', createdAt = 1\<rparr>]\<rparr>"

text \<open>The store's ranks for ties in a listing: here the length of the row's id.\<close>

definition demo_tie :: "Application \<Rightarrow> nat" where
  "demo_tie a = length (app_id a)"

text \<open>A store that breaks the capacity invariant: three applications for two seats.\<close>

definition demo_over :: Database where
  "demo_over =
     demo_db\<lparr>applications :=
       [\<lparr>userId = ''alice'', classId = demo_id, app_id = ''a-0'', createdAt = 30\<rparr>,
        \<lparr>userId = ''bob'', classId = demo_id, app_id = ''a-1'', createdAt = 10\<rparr>,
        \<lparr>userId = ''carol'', classId = demo_id, app_id = ''a-2'', createdAt = 20\<rparr>]\<rparr>"

text \<open>Two requests to create a class, one lasting a minute and one lasting three days,
  and the environment of the administrator's request.\<close>

definition short_body :: CreateClassBody where
  "short_body =
     \<lparr>body_title = ''Flash class'', body_description = ''Over in a minute'',
      body_maxParticipants = Some 5, body_startAt = Some 60000, body_endAt = Some 120000\<rparr>"

definition long_body :: CreateClassBody where
  "long_body =
     \<lparr>body_title = ''Marathon'', body_description = ''Three days in a row'',
      body_maxParticipants = Some 5, body_startAt = Some 60000, body_endAt = Some 259260000\<rparr>"

definition demo_env_create :: Env where
  "demo_env_create = demo_env\<lparr>newId := other_id\<rparr>"

text \<open>A request that arrives when the class has started.\<close>

definition demo_env_late :: Env where
  "demo_env_late = demo_env\<lparr>now := 2000\<rparr>"


definition demo_env_P2034 :: Env where
  "demo_env_P2034 =
     demo_env\<lparr>faults := (\<lambda>q. if q = TxFindClass
                            then Some (PrismaClientKnownRequestError ''P2034''
                                         ''Transaction failed due to a write conflict or a deadlock. Please retry your transaction'')
                            else None)\<rparr>"

section \<open>Facts about the queries\<close>

lemma mClass_findUnique_Some:
  "mClass_findUnique db i = Some c \<Longrightarrow> class_id c = i \<and> c \<in> set (mclasses db)"
  by (auto simp: mClass_findUnique_def find_Some_iff)

lemma application_findUnique_None:
  "application_findUnique db u c = None \<longleftrightarrow>
     (u, c) \<notin> set (map (\<lambda>a. (userId a, classId a)) (applications db))"
  by (auto simp: application_findUnique_def find_None_iff)

lemma findUnique_append:
  "application_findUnique (db\<lparr>applications := applications db @ [a]\<rparr>) u c =
     (case application_findUnique db u c of
        Some x \<Rightarrow> Some x
      | None \<Rightarrow> if userId a = u \<and> classId a = c then Some a else None)"
proof -
  have "find P (xs @ [a]) =
          (case find P xs of Some x \<Rightarrow> Some x | None \<Rightarrow> if P a then Some a else None)"
    for P and xs :: "Application list"
    by (induction xs) auto
  then show ?thesis by (simp add: application_findUnique_def)
qed

lemma count_append:
  "count_applications (db\<lparr>applications := applications db @ [a]\<rparr>) i =
     count_applications db i + (if classId a = i then 1 else 0)"
  by (simp add: count_applications_def)

lemma count_filter_le:
  "count_applications (db\<lparr>applications := filter P (applications db)\<rparr>) i
     \<le> count_applications db i"
proof -
  have "length (filter Q (filter P xs)) \<le> length (filter Q xs)"
    for Q and xs :: "Application list"
    by (induction xs) auto
  then show ?thesis by (simp add: count_applications_def)
qed

lemma count_zero_no_application:
  assumes "count_applications db c = 0"
  shows "application_findUnique db u c = None"
proof -
  have "filter (\<lambda>a. classId a = c) (applications db) = []"
    using assms by (simp add: count_applications_def)
  then have "\<forall>a \<in> set (applications db). classId a \<noteq> c"
    by (simp add: filter_empty_conv)
  then show ?thesis
    by (auto simp: application_findUnique_def find_None_iff)
qed

lemma pkey_unique:
  assumes "mclasses_pkey db" "k \<in> set (mclasses db)" "k' \<in> set (mclasses db)"
    "class_id k = class_id k'"
  shows "k = k'"
  using assms unfolding mclasses_pkey_def
  by (meson distinct_map inj_onD)

lemma validateUUID_nonempty: "isValid (validateUUID c) \<Longrightarrow> c \<noteq> []"
  by (auto simp: validateUUID_def)

lemma startAt_extend [simp]: "startAt (MClass.extend cls x) = startAt cls"
  by (simp add: MClass.extend_def)

lemma getClassById_no_faults:
  "faults env GetClassById = None \<Longrightarrow> mClass_findUnique db c = Some cls \<Longrightarrow>
   getClassById env db c =
     Inr (Some (MClass.extend cls (MClassWithStats.fields (count_applications db (class_id cls)))))"
  by (simp add: getClassById_def)

lemma demo_id_valid: "isValid (validateUUID demo_id)"
  by (simp add: validateUUID_def demo_id_def regex_test_def uuidRegex_def hexDigit_def
                eval_nat_numeral)


lemma other_id_valid: "isValid (validateUUID other_id)"
  by (simp add: validateUUID_def other_id_def regex_test_def uuidRegex_def hexDigit_def
                eval_nat_numeral)

lemma demo_find: "mClass_findUnique demo_db demo_id = Some demo_class"
    "mClass_findUnique demo_one demo_id = Some demo_class"
    "mClass_findUnique demo_full demo_id = Some demo_class"
  by (simp_all add: mClass_findUnique_def demo_db_def demo_one_def demo_full_def demo_class_def)

lemma demo_count: "count_applications demo_db demo_id = 0"
    "count_applications demo_one demo_id = 1"
    "count_applications demo_full demo_id = 2"
  by (simp_all add: count_applications_def demo_db_def demo_one_def demo_full_def)

section \<open>What a request does to the tables\<close>

lemma createApplication_tx_Inr:
  assumes "createApplication_tx env db data = Inr (a, db')"
  shows "\<exists>cls. mClass_findUnique db (classId data) = Some cls
           \<and> count_applications db (classId data) < maxParticipants cls
           \<and> application_findUnique db (userId data) (classId data) = None
           \<and> userId data \<in> set (users db)
           \<and> a = \<lparr>userId = userId data, classId = classId data,
                    app_id = newId env, createdAt = newCreatedAt env\<rparr>
           \<and> db' = db\<lparr>applications := applications db @ [a]\<rparr>"
  using assms
  by (auto simp: createApplication_tx_def application_create_def Let_def
           dest: mClass_findUnique_Some
           split: option.splits if_splits sum.splits)

lemma createApplication_Inr:
  "createApplication env db data = Inr r \<longleftrightarrow> createApplication_tx env db data = Inr r"
  by (auto simp: createApplication_def split: sum.splits)

lemma applyToClass_db:
  "snd (applyToClass env db u c) = db \<or>
   (\<exists>a. createApplication env db \<lparr>userId = u, classId = c\<rparr>
          = Inr (a, snd (applyToClass env db u c)))"
  by (auto simp: applyToClass_def split: option.splits sum.splits if_splits)

lemma cancel_db:
  "snd (cancelApplication_controller env db u c) = db \<or>
   snd (cancelApplication_controller env db u c) =
     db\<lparr>applications := filter (\<lambda>a. \<not> (userId a = u \<and> classId a = c)) (applications db)\<rparr>"
  by (auto simp: cancelApplication_controller_def cancelApplication_def application_delete_def
                 Let_def
           split: option.splits sum.splits if_splits)

lemma deleteClass_db:
  "snd (deleteClass_controller env db c) = db \<or>
   snd (deleteClass_controller env db c) =
     db\<lparr>mclasses := filter (\<lambda>k. class_id k \<noteq> c) (mclasses db),
        applications := filter (\<lambda>a. classId a \<noteq> c) (applications db)\<rparr>"
  by (auto simp: deleteClass_controller_def deleteClass_def mClass_delete_def Let_def
           split: option.splits sum.splits if_splits)

section \<open>The capacity invariant\<close>

lemma capacity_respected_iff:
  "capacity_respected db \<longleftrightarrow>
     (\<forall>k \<in> set (mclasses db). count_applications db (class_id k) \<le> maxParticipants k)"
  by (simp add: capacity_respected_def list_all_iff)

lemma capacity_mono:
  assumes "capacity_respected db" "set (mclasses db') \<subseteq> set (mclasses db)"
    "\<And>i. count_applications db' i \<le> count_applications db i"
  shows "capacity_respected db'"
  unfolding capacity_respected_iff
proof
  fix k assume "k \<in> set (mclasses db')"
  then have "k \<in> set (mclasses db)" using assms(2) by blast
  then have "count_applications db (class_id k) \<le> maxParticipants k"
    using assms(1) by (simp add: capacity_respected_iff)
  then show "count_applications db' (class_id k) \<le> maxParticipants k"
    using assms(3)[of "class_id k"] by linarith
qed

lemma capacity_admit:
  assumes "mclasses_pkey db" "capacity_respected db"
    "createApplication env db data = Inr (a, db')"
  shows "capacity_respected db'"
proof -
  from assms(3) obtain cls where cls: "mClass_findUnique db (classId data) = Some cls"
      and lt: "count_applications db (classId data) < maxParticipants cls"
      and a: "classId a = classId data"
      and db': "db' = db\<lparr>applications := applications db @ [a]\<rparr>"
    using createApplication_tx_Inr[of env db data a db']
    by (auto simp: createApplication_Inr)
  show ?thesis unfolding capacity_respected_iff
  proof
    fix k assume "k \<in> set (mclasses db')"
    then have k: "k \<in> set (mclasses db)" by (simp add: db')
    show "count_applications db' (class_id k) \<le> maxParticipants k"
    proof (cases "class_id k = classId data")
      case True
      then have "k = cls"
        using pkey_unique[OF assms(1) k, of cls] mClass_findUnique_Some[OF cls] by simp
      then show ?thesis using lt True a by (simp add: db' count_append)
    next
      case False
      then show ?thesis
        using assms(2) k a by (simp add: db' count_append capacity_respected_iff)
    qed
  qed
qed

lemma capacity_handle:
  assumes "mclasses_pkey db" "capacity_respected db"
  shows "capacity_respected (snd (handle db r)) \<and> mclasses_pkey (snd (handle db r))"
proof (cases r)
  case (Pair env q)
  show ?thesis
  proof (cases q)
    case (Apply u c)
    have "capacity_respected (snd (applyToClass env db u c))"
      using applyToClass_db[of env db u c] assms capacity_admit by metis
    moreover have "mclasses (snd (applyToClass env db u c)) = mclasses db"
      using applyToClass_db[of env db u c]
      by (auto simp: createApplication_Inr dest!: createApplication_tx_Inr)
    ultimately show ?thesis using assms Pair Apply by (simp add: mclasses_pkey_def)
  next
    case (Cancel u c)
    have "capacity_respected (snd (cancelApplication_controller env db u c))"
      using cancel_db[of env db u c] assms(2)
      by (auto intro: capacity_mono[OF assms(2)] simp: count_filter_le)
    moreover have "mclasses (snd (cancelApplication_controller env db u c)) = mclasses db"
      using cancel_db[of env db u c] by auto
    ultimately show ?thesis using assms Pair Cancel by (simp add: mclasses_pkey_def)
  next
    case (DeleteClassRequest c)
    let ?db' = "snd (deleteClass_controller env db c)"
    have d: "?db' = db \<or> ?db' = db\<lparr>mclasses := filter (\<lambda>k. class_id k \<noteq> c) (mclasses db),
        applications := filter (\<lambda>a. classId a \<noteq> c) (applications db)\<rparr>"
      by (rule deleteClass_db)
    have "capacity_respected ?db'"
    proof (rule capacity_mono[OF assms(2)])
      show "set (mclasses ?db') \<subseteq> set (mclasses db)" using d by auto
      show "count_applications ?db' i \<le> count_applications db i" for i
        using d count_filter_le[of "\<lambda>a. classId a \<noteq> c" db i]
        by (auto simp: count_applications_def)
    qed
    moreover have "mclasses_pkey ?db'"
      using d assms(1) by (auto simp: mclasses_pkey_def distinct_map_filter)
    ultimately show ?thesis using Pair DeleteClassRequest by simp
  qed
qed

lemma capacity_serve:
  "mclasses_pkey db \<Longrightarrow> capacity_respected db \<Longrightarrow>
     capacity_respected (snd (serve db rs)) \<and> mclasses_pkey (snd (serve db rs))"
proof (induction rs arbitrary: db)
  case Nil
  then show ?case by simp
next
  case (Cons r rs)
  have "capacity_respected (snd (handle db r)) \<and> mclasses_pkey (snd (handle db r))"
    using Cons.prems by (rule capacity_handle)
  then have "capacity_respected (snd (serve (snd (handle db r)) rs))
           \<and> mclasses_pkey (snd (serve (snd (handle db r)) rs))"
    using Cons.IH by blast
  then show ?case by (simp add: split_beta Let_def)
qed

section \<open>The outcomes of one apply call\<close>

lemma not_admitted_409: "\<not> is_Admitted (409, b)"
  by (simp add: is_Admitted_def)

lemma fully_booked_msg:
  "applyToClass_catch (Error ''Class is fully booked'') =
     (409, ErrorBody ''CAPACITY_EXCEEDED''
             ''Class is fully booked. No more applications can be accepted.'' [])"
  by (simp add: applyToClass_catch_def)

lemma already_applied_msg:
  "applyToClass_catch (Error ''User has already applied to this class'') =
     (409, ErrorBody ''CONFLICT'' ''You have already applied to this class'' [])"
  by (simp add: applyToClass_catch_def)

lemma class_not_found_msg:
  "applyToClass_catch (Error ''Class not found'') =
     (404, ErrorBody ''NOT_FOUND'' ''Class not found'' [])"
  by (simp add: applyToClass_catch_def)

lemma invalid_ids_msg:
  "applyToClass_catch (Error ''Invalid user ID or class ID'') =
     (400, ErrorBody ''VALIDATION_ERROR'' ''Invalid class or user information'' [])"
  by (simp add: applyToClass_catch_def)

lemma apply_full:
  assumes "isValid (validateUUID c)" "mClass_findUnique db c = Some cls"
    "faults env GetClassById = None" "faults env TxFindClass = None"
    "now env < startAt cls"
    "count_applications db c \<ge> maxParticipants cls"
  shows "applyToClass env db u c =
     ((409, ErrorBody ''CAPACITY_EXCEEDED''
             ''Class is fully booked. No more applications can be accepted.'' []), db)"
proof -
  have id: "class_id cls = c" using assms(2) by (simp add: mClass_findUnique_Some)
  have "createApplication env db \<lparr>userId = u, classId = c\<rparr> = Inl (Error ''Class is fully booked'')"
    using assms id by (simp add: createApplication_def createApplication_tx_def Let_def)
  then show ?thesis
    using assms validateUUID_nonempty[OF assms(1)]
    by (simp add: applyToClass_def getClassById_no_faults fully_booked_msg)
qed

lemma apply_duplicate:
  assumes "isValid (validateUUID c)" "mClass_findUnique db c = Some cls"
    "faults env GetClassById = None" "faults env TxFindClass = None"
    "faults env TxFindApplication = None"
    "now env < startAt cls"
    "count_applications db c < maxParticipants cls"
    "application_findUnique db u c \<noteq> None"
  shows "applyToClass env db u c =
     ((409, ErrorBody ''CONFLICT'' ''You have already applied to this class'' []), db)"
proof -
  have id: "class_id cls = c" using assms(2) by (simp add: mClass_findUnique_Some)
  have "createApplication env db \<lparr>userId = u, classId = c\<rparr>
          = Inl (Error ''User has already applied to this class'')"
    using assms id by (auto simp add: createApplication_def createApplication_tx_def Let_def)
  then show ?thesis
    using assms validateUUID_nonempty[OF assms(1)]
    by (simp add: applyToClass_def getClassById_no_faults already_applied_msg)
qed

lemma apply_success:
  assumes "isValid (validateUUID c)" "mClass_findUnique db c = Some cls"
    "faults env = no_faults"
    "now env < startAt cls"
    "count_applications db c < maxParticipants cls"
    "application_findUnique db u c = None" "u \<in> set (users db)"
  shows "applyToClass env db u c =
     ((201, ApplicationSubmitted
              \<lparr>userId = u, classId = c, app_id = newId env, createdAt = newCreatedAt env\<rparr>
              (MClass.extend cls (MClassWithStats.fields (count_applications db c)))),
      db\<lparr>applications := applications db @
            [\<lparr>userId = u, classId = c, app_id = newId env, createdAt = newCreatedAt env\<rparr>]\<rparr>)"
proof -
  have id: "class_id cls = c" using assms(2) by (simp add: mClass_findUnique_Some)
  have "createApplication env db \<lparr>userId = u, classId = c\<rparr> =
     Inr (\<lparr>userId = u, classId = c, app_id = newId env, createdAt = newCreatedAt env\<rparr>,
      db\<lparr>applications := applications db @
            [\<lparr>userId = u, classId = c, app_id = newId env, createdAt = newCreatedAt env\<rparr>]\<rparr>)"
    using assms id
    by (simp add: createApplication_def createApplication_tx_def application_create_def
                  no_faults_def Let_def)
  then show ?thesis
    using assms validateUUID_nonempty[OF assms(1)] id
    by (simp add: applyToClass_def getClassById_no_faults no_faults_def)
qed

section \<open>Filling a class\<close>

lemma serve_applies:
  assumes "isValid (validateUUID c)" "mClass_findUnique db c = Some cls"
    "maxParticipants cls = int N" "count_applications db c = int m" "m \<le> N"
    "\<forall>(env, u) \<in> set calls. faults env = no_faults \<and> now env < startAt cls
        \<and> u \<in> set (users db) \<and> application_findUnique db u c = None"
    "distinct (map snd calls)"
  shows "case serve db (map (\<lambda>(env, u). (env, Apply u c)) calls) of (resps, db') \<Rightarrow>
     length (filter is_Admitted resps) = min (N - m) (length calls) \<and>
     length (filter is_CapacityExceeded resps) = length calls - min (N - m) (length calls) \<and>
     count_applications db' c = int (m + min (N - m) (length calls))"
  using assms(2,4,5,6,7)
proof (induction calls arbitrary: db m)
  case Nil
  then show ?case by simp
next
  case (Cons call calls)
  obtain env u where call: "call = (env, u)" by (cases call)
  have env: "faults env = no_faults" "now env < startAt cls" "u \<in> set (users db)"
      "application_findUnique db u c = None"
    using Cons.prems(4) call by auto
  have rest: "faults env' = no_faults \<and> now env' < startAt cls
        \<and> u' \<in> set (users db) \<and> application_findUnique db u' c = None \<and> u' \<noteq> u"
    if m: "(env', u') \<in> set calls" for env' u'
  proof -
    have "(env', u') \<in> set (call # calls)" using m by simp
    then have q: "faults env' = no_faults \<and> now env' < startAt cls
        \<and> u' \<in> set (users db) \<and> application_findUnique db u' c = None"
      using Cons.prems(4) by blast
    have "u' \<in> snd ` set calls" using m by force
    then have "u' \<noteq> u" using Cons.prems(5) call by auto
    then show ?thesis using q by simp
  qed
  have dist: "distinct (map snd calls)" using Cons.prems(5) by simp
  let ?rs = "map (\<lambda>(env, u). (env, Apply u c)) calls"
  show ?case
  proof (cases "m < N")
    case True
    let ?a = "\<lparr>userId = u, classId = c, app_id = newId env, createdAt = newCreatedAt env\<rparr>"
    let ?db1 = "db\<lparr>applications := applications db @ [?a]\<rparr>"
    let ?r = "(201, ApplicationSubmitted ?a
                (MClass.extend cls (MClassWithStats.fields (count_applications db c))))"
    have lt: "count_applications db c < maxParticipants cls"
      using True assms(3) Cons.prems(2) by simp
    have step: "applyToClass env db u c = (?r, ?db1)"
      using assms(1) Cons.prems(1) env(1,2) lt env(4,3) by (rule apply_success)
    have f1: "mClass_findUnique ?db1 c = Some cls"
      using Cons.prems(1) by (simp add: mClass_findUnique_def)
    have c1: "count_applications ?db1 c = int (Suc m)"
      using Cons.prems(2) by (simp add: count_append)
    have r1: "\<forall>(env', u') \<in> set calls. faults env' = no_faults \<and> now env' < startAt cls
        \<and> u' \<in> set (users ?db1) \<and> application_findUnique ?db1 u' c = None"
    proof (intro ballI, clarify)
      fix env' u' assume "(env', u') \<in> set calls"
      from rest[OF this]
      show "faults env' = no_faults \<and> now env' < startAt cls
        \<and> u' \<in> set (users ?db1) \<and> application_findUnique ?db1 u' c = None"
        by (auto simp: findUnique_append)
    qed
    have le: "Suc m \<le> N" using True by simp
    obtain resps db2 where S: "serve ?db1 ?rs = (resps, db2)" by (cases "serve ?db1 ?rs")
    have IH: "length (filter is_Admitted resps) = min (N - Suc m) (length calls) \<and>
       length (filter is_CapacityExceeded resps)
          = length calls - min (N - Suc m) (length calls) \<and>
       count_applications db2 c = int (Suc m + min (N - Suc m) (length calls))"
      using Cons.IH[OF f1 c1 le r1 dist] by (simp add: S)
    have whole: "serve db (map (\<lambda>(env, u). (env, Apply u c)) (call # calls)) = (?r # resps, db2)"
      by (simp add: call step S)
    have adm: "is_Admitted ?r" "\<not> is_CapacityExceeded ?r"
      by (simp_all add: is_Admitted_def is_CapacityExceeded_def)
    have A: "length (filter is_Admitted (?r # resps)) = min (N - m) (length (call # calls))"
      using IH True adm by simp
    have B: "length (filter is_CapacityExceeded (?r # resps))
               = length (call # calls) - min (N - m) (length (call # calls))"
      using IH True adm by simp
    have C: "count_applications db2 c = int (m + min (N - m) (length (call # calls)))"
      using IH True by simp
    show ?thesis
      unfolding whole prod.case by (intro conjI A B C)
  next
    case False
    then have mN: "m = N" using Cons.prems(3) by simp
    let ?r = "(409::nat, ErrorBody ''CAPACITY_EXCEEDED''
             ''Class is fully booked. No more applications can be accepted.'' [])"
    have ge: "maxParticipants cls \<le> count_applications db c"
      using mN assms(3) Cons.prems(2) by simp
    have nf: "faults env GetClassById = None" "faults env TxFindClass = None"
      using env(1) by (simp_all add: no_faults_def)
    have step: "applyToClass env db u c = (?r, db)"
      using assms(1) Cons.prems(1) nf env(2) ge by (rule apply_full)
    have r0: "\<forall>(env', u') \<in> set calls. faults env' = no_faults \<and> now env' < startAt cls
        \<and> u' \<in> set (users db) \<and> application_findUnique db u' c = None"
    proof (intro ballI, clarify)
      fix env' u' assume "(env', u') \<in> set calls"
      from rest[OF this]
      show "faults env' = no_faults \<and> now env' < startAt cls
        \<and> u' \<in> set (users db) \<and> application_findUnique db u' c = None"
        by simp
    qed
    obtain resps db2 where S: "serve db ?rs = (resps, db2)" by (cases "serve db ?rs")
    have IH: "length (filter is_Admitted resps) = min (N - m) (length calls) \<and>
       length (filter is_CapacityExceeded resps)
          = length calls - min (N - m) (length calls) \<and>
       count_applications db2 c = int (m + min (N - m) (length calls))"
      using Cons.IH[OF Cons.prems(1,2,3) r0 dist] by (simp add: S)
    have whole: "serve db (map (\<lambda>(env, u). (env, Apply u c)) (call # calls)) = (?r # resps, db2)"
      by (simp add: call step S)
    have adm: "\<not> is_Admitted ?r" "is_CapacityExceeded ?r"
      by (simp_all add: is_Admitted_def is_CapacityExceeded_def)
    have A: "length (filter is_Admitted (?r # resps)) = min (N - m) (length (call # calls))"
      using IH mN adm by simp
    have B: "length (filter is_CapacityExceeded (?r # resps))
               = length (call # calls) - min (N - m) (length (call # calls))"
      using IH mN adm by simp
    have C: "count_applications db2 c = int (m + min (N - m) (length (call # calls)))"
      using IH mN by simp
    show ?thesis
      unfolding whole prod.case by (intro conjI A B C)
  qed
qed

text \<open>
  C2, as the code has it. Take a class with capacity \<open>N\<close> that exists, holds \<open>m \<le> N\<close>
  applications and has not started at the time of any of the calls, and \<open>K \<ge> N - m\<close>
  apply calls by \<open>K\<close> distinct users of the store, none of whom has an application for
  the class, served one after the other without a failure of the store. Then exactly
  \<open>N - m\<close> calls are answered 201, exactly \<open>K - (N - m)\<close> are answered 409
  \<^verbatim>\<open>CAPACITY_EXCEEDED\<close>, and the class ends with \<open>N\<close> applications.
\<close>

theorem apply_fills_remaining_seats:
  assumes "isValid (validateUUID c)"
    and "mClass_findUnique db c = Some cls"
    and "maxParticipants cls = int N"
    and "count_applications db c = int m"
    and "m \<le> N"
    and "\<forall>(env, u) \<in> set calls. faults env = no_faults \<and> now env < startAt cls
            \<and> u \<in> set (users db) \<and> application_findUnique db u c = None"
    and "distinct (map snd calls)"
    and "N - m \<le> length calls"
  shows "case serve db (map (\<lambda>(env, u). (env, Apply u c)) calls) of (resps, db') \<Rightarrow>
     length (filter is_Admitted resps) = N - m \<and>
     length (filter is_CapacityExceeded resps) = length calls - (N - m) \<and>
     count_applications db' c = int N"
proof -
  have "min (N - m) (length calls) = N - m" using assms(8) by simp
  moreover have "m + (N - m) = N" using assms(5) by simp
  ultimately show ?thesis
    using serve_applies[OF assms(1,2,3,4,5,6,7)] by simp
qed

theorem apply_fills_remaining_seats_witness:
  "case serve demo_one (map (\<lambda>(env, u). (env, Apply u demo_id))
          [(demo_env, ''bob''), (demo_env, ''carol'')]) of
     (resps, db') \<Rightarrow>
       length (filter is_Admitted resps) = 1 \<and>
       length (filter is_CapacityExceeded resps) = 1 \<and>
       count_applications db' demo_id = 2"
proof -
  have h3: "maxParticipants demo_class = int 2" by (simp add: demo_class_def)
  have h4: "count_applications demo_one demo_id = int 1" by (simp add: demo_count)
  have h5: "(1::nat) \<le> 2" by simp
  have h6: "\<forall>(env, u) \<in> set [(demo_env, ''bob''), (demo_env, ''carol'')].
              faults env = no_faults \<and> now env < startAt demo_class \<and> u \<in> set (users demo_one)
              \<and> application_findUnique demo_one u demo_id = None"
    by (simp add: demo_env_def demo_class_def demo_one_def demo_db_def
                  application_findUnique_def)
  have h7: "distinct (map snd [(demo_env, ''bob''), (demo_env, ''carol'')])"
    by simp
  have h8: "2 - 1 \<le> length [(demo_env, ''bob''), (demo_env, ''carol'')]"
    by simp
  show ?thesis
    using apply_fills_remaining_seats[OF demo_id_valid demo_find(2) h3 h4 h5 h6 h7 h8]
    by simp
qed

text \<open>
  C2 as stated fails: the class has capacity 2, exists and has not started; carol and the
  administrator, two distinct users who have not applied, call apply one after the other.
  Alice and bob hold the two seats, so neither call is admitted: 0 and not 2 calls are
  answered 201.
\<close>

theorem apply_fills_class_exactly_counterexample:
  "mClass_findUnique demo_full demo_id = Some demo_class \<and> maxParticipants demo_class = 2 \<and>
   now demo_env < startAt demo_class \<and>
   application_findUnique demo_full ''carol'' demo_id = None \<and>
   application_findUnique demo_full ''admin'' demo_id = None \<and>
   fst (serve demo_full [(demo_env, Apply ''carol'' demo_id), (demo_env, Apply ''admin'' demo_id)])
     = [(409, ErrorBody ''CAPACITY_EXCEEDED''
                ''Class is fully booked. No more applications can be accepted.'' []),
        (409, ErrorBody ''CAPACITY_EXCEEDED''
                ''Class is fully booked. No more applications can be accepted.'' [])] \<and>
   length (filter is_Admitted
     (fst (serve demo_full
        [(demo_env, Apply ''carol'' demo_id), (demo_env, Apply ''admin'' demo_id)]))) \<noteq> 2"
proof -
  have full: "applyToClass demo_env demo_full u demo_id =
     ((409, ErrorBody ''CAPACITY_EXCEEDED''
             ''Class is fully booked. No more applications can be accepted.'' []), demo_full)"
    for u
    using demo_id_valid demo_find(3)
    by (rule apply_full) (simp_all add: demo_env_def no_faults_def demo_class_def demo_count)
  have r: "fst (serve demo_full
              [(demo_env, Apply ''carol'' demo_id), (demo_env, Apply ''admin'' demo_id)])
     = [(409, ErrorBody ''CAPACITY_EXCEEDED''
                ''Class is fully booked. No more applications can be accepted.'' []),
        (409, ErrorBody ''CAPACITY_EXCEEDED''
                ''Class is fully booked. No more applications can be accepted.'' [])]"
    by (simp add: full)
  have n: "length (filter is_Admitted
     (fst (serve demo_full
        [(demo_env, Apply ''carol'' demo_id), (demo_env, Apply ''admin'' demo_id)]))) \<noteq> 2"
    unfolding r by (simp add: is_Admitted_def)
  have a: "application_findUnique demo_full ''carol'' demo_id = None"
      "application_findUnique demo_full ''admin'' demo_id = None"
    by (simp_all add: application_findUnique_def demo_full_def demo_db_def)
  have t: "now demo_env < startAt demo_class" "maxParticipants demo_class = 2"
    by (simp_all add: demo_env_def demo_class_def)
  show ?thesis using demo_find(3) t a r n by (intro conjI)
qed

section \<open>Overlapping apply calls\<close>

text \<open>When every statement finds the same tables, the call is the serial one.\<close>

lemma createApplication_at_serial:
  "createApplication_at env db db db data = createApplication env db data"
  by (simp add: createApplication_at_def createApplication_def createApplication_tx_at_def
                createApplication_tx_def)

lemma applyToClass_at_serial:
  "applyToClass_at env db db db db u c = applyToClass env db u c"
  by (simp add: applyToClass_at_def applyToClass_def createApplication_at_serial
           cong: sum.case_cong option.case_cong if_cong)

text \<open>The unique index is checked at the insert, so it holds in every schedule.\<close>

lemma unique_at:
  assumes "one_application_per_pair db3"
    "createApplication_at env db1 db2 db3 data = Inr (a, db')"
  shows "one_application_per_pair db'"
proof -
  from assms(2) have "createApplication_tx_at env db1 db2 db3 data = Inr (a, db')"
    by (simp add: createApplication_at_def split: sum.splits)
  then have "application_create db3 a = Inr db'"
    by (auto simp: createApplication_tx_at_def Let_def split: option.splits if_splits sum.splits)
  then have "application_findUnique db3 (userId a) (classId a) = None"
      and "db' = db3\<lparr>applications := applications db3 @ [a]\<rparr>"
    by (auto simp: application_create_def split: if_splits)
  then show ?thesis
    using assms(1)
    by (simp add: one_application_per_pair_def application_findUnique_None)
qed

lemma demo_bob_insert:
  "application_create demo_one
     \<lparr>userId = ''bob'', classId = demo_id, app_id = ''a-9'', createdAt = 0\<rparr> = Inr demo_bob"
proof -
  have n: "application_findUnique demo_one ''bob'' demo_id = None"
    by (simp add: application_findUnique_def demo_one_def demo_db_def)
  have u: "''bob'' \<in> set (users demo_one)" by (simp add: demo_one_def demo_db_def)
  show ?thesis
    by (simp add: application_create_def demo_find n u)
       (simp add: demo_one_def demo_bob_def demo_db_def)
qed

lemma demo_carol_insert:
  "application_create demo_bob
     \<lparr>userId = ''carol'', classId = demo_id, app_id = ''a-8'', createdAt = 1\<rparr>
       = Inr demo_bob_carol"
proof -
  have f: "mClass_findUnique demo_bob demo_id = Some demo_class"
    by (simp add: mClass_findUnique_def demo_bob_def demo_db_def demo_class_def)
  have n: "application_findUnique demo_bob ''carol'' demo_id = None"
    by (simp add: application_findUnique_def demo_bob_def demo_db_def)
  have u: "''carol'' \<in> set (users demo_bob)" by (simp add: demo_bob_def demo_db_def)
  show ?thesis
    by (simp add: application_create_def f n u)
       (simp add: demo_bob_def demo_bob_carol_def demo_db_def)
qed

text \<open>
  C1 on the code. The class has two seats and alice holds one; no class is over capacity.
  Bob and carol apply at the same time. Both calls read the class with one application
  (\<open>demo_one\<close>); bob's transaction inserts and commits (\<open>demo_bob\<close>); carol's duplicate
  lookup and insert then run on \<open>demo_bob\<close>. Both calls are answered 201, and the class
  ends with three applications for two seats.
\<close>

theorem overlapping_applies_exceed_capacity:
  "mclasses_pkey demo_one \<and> capacity_respected demo_one \<and>
   applyToClass_at demo_env demo_one demo_one demo_one demo_one ''bob'' demo_id =
     ((201, ApplicationSubmitted
              \<lparr>userId = ''bob'', classId = demo_id, app_id = ''a-9'', createdAt = 0\<rparr>
              (MClass.extend demo_class (MClassWithStats.fields 1))), demo_bob) \<and>
   applyToClass_at demo_env_carol demo_one demo_one demo_bob demo_bob ''carol'' demo_id =
     ((201, ApplicationSubmitted
              \<lparr>userId = ''carol'', classId = demo_id, app_id = ''a-8'', createdAt = 1\<rparr>
              (MClass.extend demo_class (MClassWithStats.fields 1))), demo_bob_carol) \<and>
   count_applications demo_bob_carol demo_id = 3 \<and> maxParticipants demo_class = 2 \<and>
   \<not> capacity_respected demo_bob_carol"
proof -
  have ne: "demo_id \<noteq> []" using demo_id_valid by (rule validateUUID_nonempty)
  have mo: "mclasses demo_one = [demo_class]" by (simp add: demo_one_def demo_db_def)
  have k: "mclasses_pkey demo_one" by (simp add: mclasses_pkey_def mo)
  have i: "capacity_respected demo_one"
    by (simp add: capacity_respected_def mo demo_count demo_class_def)
  have e: "faults demo_env = no_faults" "now demo_env = 0" "newId demo_env = ''a-9''"
      "newCreatedAt demo_env = 0"
      "faults demo_env_carol = no_faults" "now demo_env_carol = 0"
      "newId demo_env_carol = ''a-8''" "newCreatedAt demo_env_carol = 1"
    by (simp_all add: demo_env_def demo_env_carol_def)
  have g: "getClassById env demo_one demo_id
             = Inr (Some (MClass.extend demo_class (MClassWithStats.fields 1)))"
    if "faults env = no_faults" for env
    using that by (simp add: getClassById_def demo_find demo_count no_faults_def demo_class_def)
  have c: "class_id demo_class = demo_id" "maxParticipants demo_class = 2"
      "startAt demo_class = 1000"
    by (simp_all add: demo_class_def)
  have nb: "application_findUnique demo_one ''bob'' demo_id = None"
    by (simp add: application_findUnique_def demo_one_def demo_db_def)
  have nc: "application_findUnique demo_bob ''carol'' demo_id = None"
    by (simp add: application_findUnique_def demo_bob_def demo_db_def)
  have tb: "createApplication_at demo_env demo_one demo_one demo_one
              \<lparr>userId = ''bob'', classId = demo_id\<rparr>
            = Inr (\<lparr>userId = ''bob'', classId = demo_id, app_id = ''a-9'', createdAt = 0\<rparr>,
                   demo_bob)"
    by (simp add: createApplication_at_def createApplication_tx_at_def e no_faults_def
                  demo_find demo_count c nb demo_bob_insert)
  have tc: "createApplication_at demo_env_carol demo_one demo_bob demo_bob
              \<lparr>userId = ''carol'', classId = demo_id\<rparr>
            = Inr (\<lparr>userId = ''carol'', classId = demo_id, app_id = ''a-8'', createdAt = 1\<rparr>,
                   demo_bob_carol)"
    by (simp add: createApplication_at_def createApplication_tx_at_def e no_faults_def
                  demo_find demo_count c nc demo_carol_insert)
  have b: "applyToClass_at demo_env demo_one demo_one demo_one demo_one ''bob'' demo_id =
     ((201, ApplicationSubmitted
              \<lparr>userId = ''bob'', classId = demo_id, app_id = ''a-9'', createdAt = 0\<rparr>
              (MClass.extend demo_class (MClassWithStats.fields 1))), demo_bob)"
    by (simp add: applyToClass_at_def ne demo_id_valid g e c tb)
  have ca: "applyToClass_at demo_env_carol demo_one demo_one demo_bob demo_bob ''carol'' demo_id =
     ((201, ApplicationSubmitted
              \<lparr>userId = ''carol'', classId = demo_id, app_id = ''a-8'', createdAt = 1\<rparr>
              (MClass.extend demo_class (MClassWithStats.fields 1))), demo_bob_carol)"
    by (simp add: applyToClass_at_def ne demo_id_valid g e c tc)
  have n: "count_applications demo_bob_carol demo_id = 3"
    by (simp add: count_applications_def demo_bob_carol_def demo_db_def)
  have m: "mclasses demo_bob_carol = [demo_class]"
    by (simp add: demo_bob_carol_def demo_db_def)
  have o: "\<not> capacity_respected demo_bob_carol"
    by (simp add: capacity_respected_def m n c)
  show ?thesis using k i b ca n c(2) o by (intro conjI)
qed

section \<open>One application per user and class\<close>










section \<open>The order of the checks of an apply call\<close>

lemma apply_not_found:
  assumes "isValid (validateUUID c)" "faults env GetClassById = None"
    "mClass_findUnique db c = None"
  shows "applyToClass env db u c = ((404, ErrorBody ''NOT_FOUND'' ''Class not found'' []), db)"
  using assms validateUUID_nonempty[OF assms(1)]
  by (simp add: applyToClass_def getClassById_def)

lemma apply_started:
  assumes "isValid (validateUUID c)" "faults env GetClassById = None"
    "mClass_findUnique db c = Some cls" "startAt cls \<le> now env"
  shows "applyToClass env db u c =
     ((400, ErrorBody ''VALIDATION_ERROR''
              ''Cannot apply to a class that has already started'' []), db)"
  using assms validateUUID_nonempty[OF assms(1)]
  by (simp add: applyToClass_def getClassById_no_faults)

lemma apply_unknown_user:
  assumes "isValid (validateUUID c)" "mClass_findUnique db c = Some cls"
    "faults env = no_faults"
    "now env < startAt cls"
    "count_applications db c < maxParticipants cls"
    "application_findUnique db u c = None" "u \<notin> set (users db)"
  shows "applyToClass env db u c =
     ((400, ErrorBody ''VALIDATION_ERROR'' ''Invalid class or user information'' []), db)"
proof -
  have id: "class_id cls = c" using assms(2) by (simp add: mClass_findUnique_Some)
  have "createApplication env db \<lparr>userId = u, classId = c\<rparr> =
     Inl (Error ''Invalid user ID or class ID'')"
    using assms id
    by (simp add: createApplication_def createApplication_tx_def application_create_def
                  no_faults_def Let_def)
  then show ?thesis
    using assms validateUUID_nonempty[OF assms(1)] id
    by (simp add: applyToClass_def getClassById_no_faults no_faults_def invalid_ids_msg)
qed

text \<open>
  C4, as the code has it. For a well-formed class id and a store that does not fail, an
  apply call is decided by these checks in this order: the class exists, else 404
  \<^verbatim>\<open>NOT_FOUND\<close>; the class has not started (\<open>now < startAt\<close>), else 400 (already started);
  the number of applications is below \<^verbatim>\<open>maxParticipants\<close>, else 409
  \<^verbatim>\<open>CAPACITY_EXCEEDED\<close>; the user has no application for the class, else 409 \<^verbatim>\<open>CONFLICT\<close>
  (already applied); the user is a row of \<^verbatim>\<open>users\<close>, else 400; then the application is
  inserted and the answer is 201. Every refusal leaves the tables unchanged.
\<close>

theorem apply_check_order:
  assumes "isValid (validateUUID c)" and "faults env = no_faults"
  shows "applyToClass env db u c =
     (case mClass_findUnique db c of
        None \<Rightarrow> ((404, ErrorBody ''NOT_FOUND'' ''Class not found'' []), db)
      | Some cls \<Rightarrow>
          if startAt cls \<le> now env
          then ((400, ErrorBody ''VALIDATION_ERROR''
                        ''Cannot apply to a class that has already started'' []), db)
          else if count_applications db c \<ge> maxParticipants cls
          then ((409, ErrorBody ''CAPACITY_EXCEEDED''
                        ''Class is fully booked. No more applications can be accepted.'' []), db)
          else if application_findUnique db u c \<noteq> None
          then ((409, ErrorBody ''CONFLICT'' ''You have already applied to this class'' []), db)
          else if u \<notin> set (users db)
          then ((400, ErrorBody ''VALIDATION_ERROR'' ''Invalid class or user information'' []), db)
          else ((201, ApplicationSubmitted
                        \<lparr>userId = u, classId = c, app_id = newId env,
                         createdAt = newCreatedAt env\<rparr>
                        (MClass.extend cls (MClassWithStats.fields (count_applications db c)))),
                db\<lparr>applications := applications db @
                      [\<lparr>userId = u, classId = c, app_id = newId env,
                        createdAt = newCreatedAt env\<rparr>]\<rparr>))"
proof (cases "mClass_findUnique db c")
  case None
  then show ?thesis
    using apply_not_found[OF assms(1) _ None] assms(2) by (simp add: no_faults_def)
next
  case (Some cls)
  have nf: "faults env GetClassById = None" "faults env TxFindClass = None"
      "faults env TxFindApplication = None"
    using assms(2) by (simp_all add: no_faults_def)
  consider (started) "startAt cls \<le> now env"
    | (full) "now env < startAt cls" "maxParticipants cls \<le> count_applications db c"
    | (dup) "now env < startAt cls" "count_applications db c < maxParticipants cls"
            "application_findUnique db u c \<noteq> None"
    | (nouser) "now env < startAt cls" "count_applications db c < maxParticipants cls"
            "application_findUnique db u c = None" "u \<notin> set (users db)"
    | (ok) "now env < startAt cls" "count_applications db c < maxParticipants cls"
            "application_findUnique db u c = None" "u \<in> set (users db)"
    by linarith
  then show ?thesis
  proof cases
    case started
    then show ?thesis using apply_started[OF assms(1) nf(1) Some] Some by simp
  next
    case full
    then show ?thesis using apply_full[OF assms(1) Some nf(1,2)] Some by simp
  next
    case dup
    then show ?thesis using apply_duplicate[OF assms(1) Some nf] Some by simp
  next
    case nouser
    then show ?thesis using apply_unknown_user[OF assms(1) Some assms(2)] Some by simp
  next
    case ok
    then show ?thesis using apply_success[OF assms(1) Some assms(2)] Some by simp
  qed
qed

theorem apply_check_order_witness:
  "isValid (validateUUID demo_id) \<and> faults demo_env = no_faults \<and>
   applyToClass demo_env demo_full ''alice'' demo_id =
     ((409, ErrorBody ''CAPACITY_EXCEEDED''
              ''Class is fully booked. No more applications can be accepted.'' []), demo_full)"
proof -
  have h: "faults demo_env = no_faults" by (simp add: demo_env_def)
  show ?thesis
    using apply_check_order[OF demo_id_valid h, of demo_full "''alice''"] demo_id_valid h
    by (simp add: demo_find demo_count demo_class_def demo_env_def)
qed

text \<open>
  C4 as stated fails: alice has already applied to the class, the class is full, and her
  apply call is answered 409 \<^verbatim>\<open>CAPACITY_EXCEEDED\<close>, not already applied.
\<close>

theorem apply_check_order_counterexample:
  "application_findUnique demo_full ''alice'' demo_id \<noteq> None \<and>
   count_applications demo_full demo_id = maxParticipants demo_class \<and>
   is_CapacityExceeded (fst (applyToClass demo_env demo_full ''alice'' demo_id)) \<and>
   \<not> is_AlreadyApplied (fst (applyToClass demo_env demo_full ''alice'' demo_id))"
proof -
  have "applyToClass demo_env demo_full ''alice'' demo_id =
     ((409, ErrorBody ''CAPACITY_EXCEEDED''
             ''Class is fully booked. No more applications can be accepted.'' []), demo_full)"
    using demo_id_valid demo_find(3)
    by (rule apply_full) (simp_all add: demo_env_def no_faults_def demo_class_def demo_count)
  then have r: "is_CapacityExceeded (fst (applyToClass demo_env demo_full ''alice'' demo_id))"
      "\<not> is_AlreadyApplied (fst (applyToClass demo_env demo_full ''alice'' demo_id))"
    by (simp_all add: is_AlreadyApplied_def is_CapacityExceeded_def)
  have a: "application_findUnique demo_full ''alice'' demo_id \<noteq> None"
    by (simp add: application_findUnique_def demo_full_def demo_db_def)
  have c: "count_applications demo_full demo_id = maxParticipants demo_class"
    by (simp add: demo_count demo_class_def)
  show ?thesis using r a c by (intro conjI)
qed

section \<open>Cancelling an application\<close>

lemma filter_absent_key:
  assumes "(u, c) \<notin> set (map (\<lambda>a. (userId a, classId a)) xs)"
  shows "filter (\<lambda>a. \<not> (userId a = u \<and> classId a = c)) xs = xs"
  using assms by (induction xs) auto

lemma filter_unique_key:
  fixes xs :: "Application list"
  assumes "distinct (map (\<lambda>a. (userId a, classId a)) xs)"
    "find (\<lambda>a. userId a = u \<and> classId a = c) xs = Some x"
  shows "filter (\<lambda>a. \<not> (userId a = u \<and> classId a = c)) xs = remove1 x xs"
  using assms
proof (induction xs)
  case Nil
  then show ?case by simp
next
  case (Cons a xs)
  show ?case
  proof (cases "userId a = u \<and> classId a = c")
    case True
    then have x: "x = a" using Cons.prems(2) by simp
    have "(u, c) \<notin> set (map (\<lambda>a. (userId a, classId a)) xs)"
      using Cons.prems(1) True by auto
    then have "filter (\<lambda>a. \<not> (userId a = u \<and> classId a = c)) xs = xs"
      by (rule filter_absent_key)
    then show ?thesis using True x by simp
  next
    case False
    then have f: "find (\<lambda>a. userId a = u \<and> classId a = c) xs = Some x"
      using Cons.prems(2) by (auto split: if_splits)
    then have "userId x = u \<and> classId x = c" by (auto simp: find_Some_iff)
    then have "x \<noteq> a" using False by auto
    then show ?thesis using Cons.IH[OF _ f] Cons.prems(1) False by simp
  qed
qed

lemma find_Some_mem:
  "find P xs = Some x \<Longrightarrow> x \<in> set xs \<and> P x"
  by (auto simp: find_Some_iff)

lemma count_remove1:
  assumes "x \<in> set (applications db)" "classId x = c"
  shows "count_applications (db\<lparr>applications := remove1 x (applications db)\<rparr>) c
           = count_applications db c - 1"
proof -
  have "x \<in> set xs \<Longrightarrow> P x \<Longrightarrow> length (filter P (remove1 x xs)) + 1 = length (filter P xs)"
    for P and xs :: "Application list"
    by (induction xs) auto
  from this[OF assms(1), of "\<lambda>a. classId a = c"] assms(2)
  show ?thesis by (simp add: count_applications_def)
qed

lemma cancel_success:
  assumes "isValid (validateUUID c)" "faults env = no_faults"
    "mClass_findUnique db c = Some cls" "now env < startAt cls"
    "application_findUnique db u c \<noteq> None"
  shows "cancelApplication_controller env db u c =
     ((200, ApplicationCancelled
              (MClass.extend cls (MClassWithStats.fields (count_applications db c)))),
      db\<lparr>applications :=
           filter (\<lambda>a. \<not> (userId a = u \<and> classId a = c)) (applications db)\<rparr>)"
proof -
  have id: "class_id cls = c" using assms(3) by (simp add: mClass_findUnique_Some)
  show ?thesis
    using assms validateUUID_nonempty[OF assms(1)] id
    by (simp add: cancelApplication_controller_def cancelApplication_def application_delete_def
                  getClassById_no_faults no_faults_def)
qed

lemma cancel_absent:
  assumes "isValid (validateUUID c)" "faults env = no_faults"
    "mClass_findUnique db c = Some cls" "now env < startAt cls"
    "application_findUnique db u c = None"
  shows "cancelApplication_controller env db u c =
     ((404, ErrorBody ''NOT_FOUND'' ''Application not found'' []), db)"
proof -
  have id: "class_id cls = c" using assms(3) by (simp add: mClass_findUnique_Some)
  show ?thesis
    using assms validateUUID_nonempty[OF assms(1)] id
    by (simp add: cancelApplication_controller_def cancelApplication_def application_delete_def
                  getClassById_no_faults no_faults_def)
qed

lemma cancel_class_missing:
  assumes "isValid (validateUUID c)" "faults env GetClassById = None"
    "mClass_findUnique db c = None"
  shows "cancelApplication_controller env db u c =
     ((404, ErrorBody ''NOT_FOUND'' ''Class not found'' []), db)"
  using assms validateUUID_nonempty[OF assms(1)]
  by (simp add: cancelApplication_controller_def getClassById_def)

lemma cancel_started:
  assumes "isValid (validateUUID c)" "faults env GetClassById = None"
    "mClass_findUnique db c = Some cls" "startAt cls \<le> now env"
  shows "cancelApplication_controller env db u c =
     ((400, ErrorBody ''VALIDATION_ERROR''
              ''Cannot cancel application for a class that has already started'' []), db)"
  using assms validateUUID_nonempty[OF assms(1)]
  by (simp add: cancelApplication_controller_def getClassById_no_faults)

lemma cancel_failure_keeps:
  "fst (fst (cancelApplication_controller env db u c)) \<noteq> 200 \<Longrightarrow>
     snd (cancelApplication_controller env db u c) = db"
  by (auto simp: cancelApplication_controller_def Let_def
           split: if_splits sum.splits option.splits)

lemma findUnique_filter_None:
  assumes "application_findUnique db v c = None"
  shows "application_findUnique (db\<lparr>applications := filter P (applications db)\<rparr>) v c = None"
  using assms by (auto simp: application_findUnique_def find_None_iff)

text \<open>
  C7. Take a class that exists and is full (as many applications as \<^verbatim>\<open>maxParticipants\<close>),
  in a store with at most one application per user and class, a user \<open>u\<close> who has an
  application for it and a user \<open>v\<close> of the store who has none; let neither call meet a
  failure of the store, both before the class starts. Then the cancel call of \<open>u\<close> is
  answered 200 and leaves one seat free, the following apply call of \<open>v\<close> is admitted,
  and the class is full again.
\<close>

theorem cancel_frees_a_seat:
  assumes "isValid (validateUUID c)"
    and "one_application_per_pair db"
    and "mClass_findUnique db c = Some cls"
    and "count_applications db c = maxParticipants cls"
    and "application_findUnique db u c \<noteq> None"
    and "application_findUnique db v c = None"
    and "v \<in> set (users db)"
    and "faults env1 = no_faults" and "now env1 < startAt cls"
    and "faults env2 = no_faults" and "now env2 < startAt cls"
  shows "case cancelApplication_controller env1 db u c of (r1, db1) \<Rightarrow>
           fst r1 = 200 \<and> count_applications db1 c = maxParticipants cls - 1 \<and>
           (case applyToClass env2 db1 v c of (r2, db2) \<Rightarrow>
              is_Admitted r2 \<and> application_findUnique db2 v c \<noteq> None \<and>
              count_applications db2 c = maxParticipants cls)"
proof -
  let ?db1 = "db\<lparr>applications :=
                filter (\<lambda>a. \<not> (userId a = u \<and> classId a = c)) (applications db)\<rparr>"
  let ?a = "\<lparr>userId = v, classId = c, app_id = newId env2, createdAt = newCreatedAt env2\<rparr>"
  let ?db2 = "?db1\<lparr>applications := applications ?db1 @ [?a]\<rparr>"
  have c1: "cancelApplication_controller env1 db u c =
     ((200, ApplicationCancelled
              (MClass.extend cls (MClassWithStats.fields (count_applications db c)))), ?db1)"
    using assms(1,8,3,9,5) by (rule cancel_success)
  obtain x where x: "application_findUnique db u c = Some x" using assms(5) by auto
  then have xin: "x \<in> set (applications db)" "classId x = c"
    by (auto simp: application_findUnique_def dest: find_Some_mem)
  have rem: "filter (\<lambda>a. \<not> (userId a = u \<and> classId a = c)) (applications db)
               = remove1 x (applications db)"
    using assms(2) x
    by (intro filter_unique_key) (simp_all add: one_application_per_pair_def
                                                application_findUnique_def)
  have n1: "count_applications ?db1 c = maxParticipants cls - 1"
    using count_remove1[OF xin] assms(4) unfolding rem by simp
  have f1: "mClass_findUnique ?db1 c = Some cls"
    using assms(3) by (simp add: mClass_findUnique_def)
  have lt: "count_applications ?db1 c < maxParticipants cls" using n1 by simp
  have none: "application_findUnique ?db1 v c = None"
    using assms(6) by (rule findUnique_filter_None)
  have v: "v \<in> set (users ?db1)" using assms(7) by simp
  have a2: "applyToClass env2 ?db1 v c =
     ((201, ApplicationSubmitted ?a
              (MClass.extend cls (MClassWithStats.fields (count_applications ?db1 c)))), ?db2)"
    using assms(1) f1 assms(10,11) lt none v by (rule apply_success)
  have n2: "count_applications ?db2 c = maxParticipants cls"
    using n1 count_append[of ?db1 ?a c] by simp
  have in2: "application_findUnique ?db2 v c \<noteq> None"
    using findUnique_append[of ?db1 ?a v c] by (simp split: option.splits)
  show ?thesis
    unfolding c1 a2 prod.case using n1 n2 in2 by (simp add: is_Admitted_def)
qed

theorem cancel_frees_a_seat_witness:
  "case cancelApplication_controller demo_env demo_full ''alice'' demo_id of (r1, db1) \<Rightarrow>
     fst r1 = 200 \<and> count_applications db1 demo_id = 1 \<and>
     (case applyToClass demo_env db1 ''carol'' demo_id of (r2, db2) \<Rightarrow>
        is_Admitted r2 \<and> application_findUnique db2 ''carol'' demo_id \<noteq> None \<and>
        count_applications db2 demo_id = 2)"
proof -
  have h2: "one_application_per_pair demo_full"
    by (simp add: one_application_per_pair_def demo_full_def demo_db_def)
  have h4: "count_applications demo_full demo_id = maxParticipants demo_class"
    by (simp add: demo_count demo_class_def)
  have h5: "application_findUnique demo_full ''alice'' demo_id \<noteq> None"
    by (simp add: application_findUnique_def demo_full_def demo_db_def)
  have h6: "application_findUnique demo_full ''carol'' demo_id = None"
    by (simp add: application_findUnique_def demo_full_def demo_db_def)
  have h7: "''carol'' \<in> set (users demo_full)"
    by (simp add: demo_full_def demo_db_def)
  have h8: "faults demo_env = no_faults" "now demo_env < startAt demo_class"
    by (simp_all add: demo_env_def demo_class_def)
  show ?thesis
    using cancel_frees_a_seat[OF demo_id_valid h2 demo_find(3) h4 h5 h6 h7 h8 h8]
    by (simp add: demo_class_def)
qed

text \<open>
  C8. For a well-formed class id, in a store with at most one application per user and
  class, and when the store does not fail: a cancel call for a class that does not exist
  is answered 404 (class not found); for a class that has started it is answered 400;
  for a class that exists and has not started it is answered 404 (application not found)
  exactly when the user has no application for the class, and otherwise it is answered 200
  and removes precisely the one application of that user for that class. Whenever the
  answer is not 200 (also when the store fails), no application is removed.
\<close>

theorem cancel_outcomes:
  assumes "isValid (validateUUID c)" and "one_application_per_pair db"
  shows
    "(isValid (validateUUID cm) \<and> faults env = no_faults \<and> mClass_findUnique db cm = None \<longrightarrow>
        cancelApplication_controller env db u cm =
          ((404, ErrorBody ''NOT_FOUND'' ''Class not found'' []), db)) \<and>
     (faults envl = no_faults \<and> mClass_findUnique db c = Some cls \<and> startAt cls \<le> now envl \<longrightarrow>
        cancelApplication_controller envl db u c =
          ((400, ErrorBody ''VALIDATION_ERROR''
                   ''Cannot cancel application for a class that has already started'' []), db)) \<and>
     (faults env = no_faults \<and> mClass_findUnique db c = Some cls \<and> now env < startAt cls \<longrightarrow>
        (is_ApplicationNotFound (fst (cancelApplication_controller env db w c))
           \<longleftrightarrow> application_findUnique db w c = None) \<and>
        (application_findUnique db u c = Some x \<longrightarrow>
           fst (fst (cancelApplication_controller env db u c)) = 200 \<and>
           x \<in> set (applications db) \<and> userId x = u \<and> classId x = c \<and>
           snd (cancelApplication_controller env db u c)
             = db\<lparr>applications := remove1 x (applications db)\<rparr>)) \<and>
     (fst (fst (cancelApplication_controller envf db u cf)) \<noteq> 200 \<longrightarrow>
        snd (cancelApplication_controller envf db u cf) = db)"
proof (intro conjI impI)
  assume "isValid (validateUUID cm) \<and> faults env = no_faults \<and> mClass_findUnique db cm = None"
  then show "cancelApplication_controller env db u cm =
          ((404, ErrorBody ''NOT_FOUND'' ''Class not found'' []), db)"
    by (intro cancel_class_missing) (simp_all add: no_faults_def)
next
  assume "faults envl = no_faults \<and> mClass_findUnique db c = Some cls \<and> startAt cls \<le> now envl"
  then show "cancelApplication_controller envl db u c =
          ((400, ErrorBody ''VALIDATION_ERROR''
                   ''Cannot cancel application for a class that has already started'' []), db)"
    using assms(1) by (intro cancel_started[where cls = cls]) (simp_all add: no_faults_def)
next
  assume h: "faults env = no_faults \<and> mClass_findUnique db c = Some cls \<and> now env < startAt cls"
  show "is_ApplicationNotFound (fst (cancelApplication_controller env db w c))
           \<longleftrightarrow> application_findUnique db w c = None"
  proof (cases "application_findUnique db w c = None")
    case True
    then show ?thesis
      using cancel_absent[OF assms(1), of env db cls w] h
      by (simp add: is_ApplicationNotFound_def)
  next
    case False
    then show ?thesis
      using cancel_success[OF assms(1), of env db cls w] h
      by (simp add: is_ApplicationNotFound_def)
  qed
next
  assume h: "faults env = no_faults \<and> mClass_findUnique db c = Some cls \<and> now env < startAt cls"
    and x: "application_findUnique db u c = Some x"
  have ne: "application_findUnique db u c \<noteq> None" using x by simp
  have s: "cancelApplication_controller env db u c =
     ((200, ApplicationCancelled
              (MClass.extend cls (MClassWithStats.fields (count_applications db c)))),
      db\<lparr>applications :=
           filter (\<lambda>a. \<not> (userId a = u \<and> classId a = c)) (applications db)\<rparr>)"
    using cancel_success[OF assms(1) _ _ _ ne, of env cls] h by simp
  have rem: "filter (\<lambda>a. \<not> (userId a = u \<and> classId a = c)) (applications db)
               = remove1 x (applications db)"
    using assms(2) x
    by (intro filter_unique_key) (simp_all add: one_application_per_pair_def
                                                application_findUnique_def)
  show "fst (fst (cancelApplication_controller env db u c)) = 200" by (simp add: s)
  show "x \<in> set (applications db)" "userId x = u" "classId x = c"
    using x by (auto simp: application_findUnique_def dest: find_Some_mem)
  show "snd (cancelApplication_controller env db u c)
             = db\<lparr>applications := remove1 x (applications db)\<rparr>"
    unfolding s rem by simp
next
  assume "fst (fst (cancelApplication_controller envf db u cf)) \<noteq> 200"
  then show "snd (cancelApplication_controller envf db u cf) = db"
    by (rule cancel_failure_keeps)
qed

theorem cancel_outcomes_witness:
  "isValid (validateUUID demo_id) \<and> one_application_per_pair demo_one \<and>
   isValid (validateUUID other_id) \<and> faults demo_env = no_faults \<and>
   mClass_findUnique demo_one other_id = None \<and>
   faults demo_env_late = no_faults \<and> mClass_findUnique demo_one demo_id = Some demo_class \<and>
   startAt demo_class \<le> now demo_env_late \<and> now demo_env < startAt demo_class \<and>
   application_findUnique demo_one ''alice'' demo_id
     = Some \<lparr>userId = ''alice'', classId = demo_id, app_id = ''a-0'', createdAt = 10\<rparr> \<and>
   application_findUnique demo_one ''bob'' demo_id = None \<and>
   cancelApplication_controller demo_env demo_one ''alice'' other_id =
     ((404, ErrorBody ''NOT_FOUND'' ''Class not found'' []), demo_one) \<and>
   cancelApplication_controller demo_env_late demo_one ''alice'' demo_id =
     ((400, ErrorBody ''VALIDATION_ERROR''
              ''Cannot cancel application for a class that has already started'' []), demo_one) \<and>
   is_ApplicationNotFound (fst (cancelApplication_controller demo_env demo_one ''bob'' demo_id)) \<and>
   snd (cancelApplication_controller demo_env demo_one ''bob'' demo_id) = demo_one \<and>
   fst (fst (cancelApplication_controller demo_env demo_one ''alice'' demo_id)) = 200 \<and>
   snd (cancelApplication_controller demo_env demo_one ''alice'' demo_id) =
     demo_one\<lparr>applications :=
       remove1 \<lparr>userId = ''alice'', classId = demo_id, app_id = ''a-0'', createdAt = 10\<rparr>
               (applications demo_one)\<rparr>"
proof -
  let ?x = "\<lparr>userId = ''alice'', classId = demo_id, app_id = ''a-0'', createdAt = 10\<rparr>"
  have h1: "one_application_per_pair demo_one"
    by (simp add: one_application_per_pair_def demo_one_def demo_db_def)
  have h2: "faults demo_env = no_faults" "faults demo_env_late = no_faults"
    by (simp_all add: demo_env_def demo_env_late_def)
  have h3: "mClass_findUnique demo_one other_id = None"
    by (simp add: mClass_findUnique_def demo_one_def demo_db_def demo_class_def demo_id_def
                  other_id_def)
  have h4: "startAt demo_class \<le> now demo_env_late" "now demo_env < startAt demo_class"
    by (simp_all add: demo_env_def demo_env_late_def demo_class_def)
  have h5: "application_findUnique demo_one ''alice'' demo_id = Some ?x"
    by (simp add: application_findUnique_def demo_one_def demo_db_def)
  have h6: "application_findUnique demo_one ''bob'' demo_id = None"
    by (simp add: application_findUnique_def demo_one_def demo_db_def)
  note T = cancel_outcomes[OF demo_id_valid h1, where cm = other_id and env = demo_env
      and envl = demo_env_late and cls = demo_class and u = "''alice''" and w = "''bob''"
      and x = ?x and envf = demo_env and cf = demo_id]
  have nf: "is_ApplicationNotFound (fst (cancelApplication_controller demo_env demo_one ''bob'' demo_id))"
    using T h2 demo_find(2) h4 h6 by blast
  have keep: "snd (cancelApplication_controller demo_env demo_one ''bob'' demo_id) = demo_one"
    using cancel_outcomes[OF demo_id_valid h1, where u = "''bob''" and envf = demo_env
            and cf = demo_id] nf
    by (auto simp: is_ApplicationNotFound_def)
  show ?thesis
    using T h1 h2 h3 h4 h5 h6 demo_id_valid other_id_valid demo_find(2) nf keep by blast
qed

section \<open>Listings\<close>

lemma orderBy_asc_sorted:
  "sorted_wrt (\<lambda>a b. createdAt a \<le> createdAt b) (orderBy_createdAt_asc tie rows)"
proof -
  have "sorted (map createdAt (sort_key createdAt (sort_key tie rows)))"
    by (rule sorted_sort_key)
  then show ?thesis by (simp add: orderBy_createdAt_asc_def sorted_map)
qed

lemma orderBy_desc_sorted:
  "sorted_wrt (\<lambda>a b. createdAt a \<ge> createdAt b) (orderBy_createdAt_desc tie rows)"
proof -
  have "sorted (map (\<lambda>a. - createdAt a) (sort_key (\<lambda>a. - createdAt a) (sort_key tie rows)))"
    by (rule sorted_sort_key)
  then show ?thesis by (simp add: orderBy_createdAt_desc_def sorted_map)
qed

lemma orderBy_same_rows:
  "set (orderBy_createdAt_asc tie rows) = set rows"
  "length (orderBy_createdAt_asc tie rows) = length rows"
  "set (orderBy_createdAt_desc tie rows) = set rows"
  "length (orderBy_createdAt_desc tie rows) = length rows"
  by (simp_all add: orderBy_createdAt_asc_def orderBy_createdAt_desc_def)

lemma skip_take_sorted:
  assumes "sorted_wrt P xs" "skip_take k n xs = Some ys"
  shows "sorted_wrt P ys"
proof (cases "0 \<le> n")
  case True
  then have "ys = take (nat n) (drop (nat k) xs)"
    using assms(2) by (simp add: skip_take_def split: if_splits)
  then show ?thesis using assms(1) by (simp add: sorted_wrt_take sorted_wrt_drop)
next
  case False
  then have ys: "ys = rev (take (nat (- n)) (drop (nat k) (rev xs)))"
    using assms(2) by (simp add: skip_take_def split: if_splits)
  have "sorted_wrt (\<lambda>x y. P y x) (rev xs)"
    using assms(1) by (simp add: sorted_wrt_rev)
  then have "sorted_wrt (\<lambda>x y. P y x) (take (nat (- n)) (drop (nat k) (rev xs)))"
    by (intro sorted_wrt_take sorted_wrt_drop)
  then show ?thesis by (simp add: ys sorted_wrt_rev)
qed

lemma page_subset: "set (take n (drop k xs)) \<subseteq> set xs"
  by (meson set_take_subset set_drop_subset subset_trans)

lemma skip_take_subset:
  assumes "skip_take k n xs = Some ys"
  shows "set ys \<subseteq> set xs"
proof (cases "0 \<le> n")
  case True
  then have "ys = take (nat n) (drop (nat k) xs)"
    using assms by (simp add: skip_take_def split: if_splits)
  then show ?thesis using page_subset by metis
next
  case False
  then have "ys = rev (take (nat (- n)) (drop (nat k) (rev xs)))"
    using assms by (simp add: skip_take_def split: if_splits)
  then show ?thesis using page_subset[of "nat (- n)" "nat k" "rev xs"] by simp
qed

lemma skip_take_length:
  assumes "skip_take k n xs = Some ys"
  shows "length ys \<le> nat \<bar>n\<bar>"
  using assms by (auto simp: skip_take_def split: if_splits)

lemma skip_take_in_range:
  assumes "1 \<le> page" "1 \<le> limit"
  shows "skip_take ((page - 1) * limit) limit xs
           = Some (take (nat limit) (drop (nat (page - 1) * nat limit) xs))"
proof -
  have "nat ((page - 1) * limit) = nat (page - 1) * nat limit"
    using assms by (simp add: nat_mult_distrib)
  then show ?thesis using assms by (simp add: skip_take_def mult_less_0_iff)
qed

lemma limit_param_le: "limit_param q \<le> 50"
  by (simp add: limit_param_def)

lemma getClassApplications_Some:
  assumes "getClassApplications env tie db c page limit = Some pg"
  shows "skip_take ((page - 1) * limit) limit
           (orderBy_createdAt_asc tie (filter (\<lambda>a. classId a = c) (applications db)))
             = Some (items pg)"
    and "total pg = count_applications db c"
  using assms
  by (auto simp: getClassApplications_def Let_def count_applications_def
           split: option.splits)

lemma getUserApplications_Some:
  assumes "getUserApplications env tie db u page limit = Some pg"
  shows "skip_take ((page - 1) * limit) limit
           (orderBy_createdAt_desc tie (filter (\<lambda>a. userId a = u) (applications db)))
             = Some (items pg)"
  using assms
  by (auto simp: getUserApplications_def Let_def split: option.splits)

lemma getClassApplications_controller_200:
  assumes "getClassApplications_controller env tie db v isAdmin c pageQ limitQ
             = (200, ApplicationList pg)"
  shows "getClassApplications env tie db c (page_param pageQ) (limit_param limitQ) = Some pg"
    and "1 \<le> page_param pageQ" and "1 \<le> limit_param limitQ"
  using assms
  by (auto simp: getClassApplications_controller_def createValidationError_def Let_def
           split: if_splits sum.splits option.splits)

lemma getUserApplications_controller_200:
  assumes "getUserApplications_controller env tie db u pageQ limitQ
             = (200, ApplicationList pg)"
  shows "getUserApplications env tie db u (page_param pageQ) (limit_param limitQ) = Some pg"
    and "1 \<le> page_param pageQ" and "1 \<le> limit_param limitQ"
  using assms
  by (auto simp: getUserApplications_controller_def createValidationError_def Let_def
           split: if_splits option.splits)

text \<open>
  C9. Whatever order the store gives to rows with equal timestamps: when the listing of a
  class returns, its rows are applications of that class in ascending order of
  \<^verbatim>\<open>createdAt\<close>; when the listing of a user returns, its rows are applications of that
  user in descending order of \<^verbatim>\<open>createdAt\<close>; either holds at most \<open>|limit|\<close> rows. The
  whole ordered listing has exactly the rows asked for. For \<open>page \<ge> 1\<close> and \<open>limit \<ge> 1\<close>
  and a store that does not fail, both listings return. When a handler answers 200, the
  page it sends is the one the service returns for a page number of at least 1 and a limit
  between 1 and 50: the rows \<open>(page - 1) * limit\<close> up to \<open>page * limit\<close> of the whole
  ordered listing.
\<close>

theorem listings_ordered_and_paginated:
  "(getClassApplications env tie db c page limit = Some pg \<longrightarrow>
      sorted_wrt (\<lambda>a b. createdAt a \<le> createdAt b) (items pg) \<and>
      set (items pg) \<subseteq> {a \<in> set (applications db). classId a = c} \<and>
      length (items pg) \<le> nat \<bar>limit\<bar> \<and>
      total pg = count_applications db c) \<and>
   (getUserApplications env tie db u page limit = Some pg' \<longrightarrow>
      sorted_wrt (\<lambda>a b. createdAt a \<ge> createdAt b) (items pg') \<and>
      set (items pg') \<subseteq> {a \<in> set (applications db). userId a = u} \<and>
      length (items pg') \<le> nat \<bar>limit\<bar>) \<and>
   set (orderBy_createdAt_asc tie rows) = set rows \<and>
   length (orderBy_createdAt_asc tie rows) = length rows \<and>
   set (orderBy_createdAt_desc tie rows) = set rows \<and>
   length (orderBy_createdAt_desc tie rows) = length rows \<and>
   (1 \<le> page \<and> 1 \<le> limit \<and> faults env FindManyApplications = None \<longrightarrow>
      getClassApplications env tie db c page limit \<noteq> None \<and>
      getUserApplications env tie db u page limit \<noteq> None) \<and>
   (getClassApplications_controller env tie db v isAdmin c pageQ limitQ
      = (200, ApplicationList pg) \<longrightarrow>
      getClassApplications env tie db c (page_param pageQ) (limit_param limitQ) = Some pg \<and>
      1 \<le> page_param pageQ \<and> 1 \<le> limit_param limitQ \<and> limit_param limitQ \<le> 50 \<and>
      items pg = take (nat (limit_param limitQ))
                   (drop (nat (page_param pageQ - 1) * nat (limit_param limitQ))
                      (orderBy_createdAt_asc tie
                         (filter (\<lambda>a. classId a = c) (applications db))))) \<and>
   (getUserApplications_controller env tie db u pageQ limitQ = (200, ApplicationList pg') \<longrightarrow>
      getUserApplications env tie db u (page_param pageQ) (limit_param limitQ) = Some pg' \<and>
      1 \<le> page_param pageQ \<and> 1 \<le> limit_param limitQ \<and> limit_param limitQ \<le> 50 \<and>
      items pg' = take (nat (limit_param limitQ))
                   (drop (nat (page_param pageQ - 1) * nat (limit_param limitQ))
                      (orderBy_createdAt_desc tie
                         (filter (\<lambda>a. userId a = u) (applications db)))))"
proof (intro conjI impI)
  assume a: "getClassApplications env tie db c page limit = Some pg"
  note st = getClassApplications_Some[OF a]
  show "sorted_wrt (\<lambda>a b. createdAt a \<le> createdAt b) (items pg)"
    using orderBy_asc_sorted st(1) by (rule skip_take_sorted)
  show "set (items pg) \<subseteq> {a \<in> set (applications db). classId a = c}"
    using skip_take_subset[OF st(1)] by (auto simp: orderBy_same_rows)
  show "length (items pg) \<le> nat \<bar>limit\<bar>" using st(1) by (rule skip_take_length)
  show "total pg = count_applications db c" by (rule st(2))
next
  assume a: "getUserApplications env tie db u page limit = Some pg'"
  note st = getUserApplications_Some[OF a]
  show "sorted_wrt (\<lambda>a b. createdAt a \<ge> createdAt b) (items pg')"
    using orderBy_desc_sorted st by (rule skip_take_sorted)
  show "set (items pg') \<subseteq> {a \<in> set (applications db). userId a = u}"
    using skip_take_subset[OF st] by (auto simp: orderBy_same_rows)
  show "length (items pg') \<le> nat \<bar>limit\<bar>" using st by (rule skip_take_length)
next
  show "set (orderBy_createdAt_asc tie rows) = set rows"
    "length (orderBy_createdAt_asc tie rows) = length rows"
    "set (orderBy_createdAt_desc tie rows) = set rows"
    "length (orderBy_createdAt_desc tie rows) = length rows"
    by (rule orderBy_same_rows)+
next
  assume h: "1 \<le> page \<and> 1 \<le> limit \<and> faults env FindManyApplications = None"
  then show "getClassApplications env tie db c page limit \<noteq> None"
    by (simp add: getClassApplications_def Let_def skip_take_in_range)
  from h show "getUserApplications env tie db u page limit \<noteq> None"
    by (simp add: getUserApplications_def Let_def skip_take_in_range)
next
  assume a: "getClassApplications_controller env tie db v isAdmin c pageQ limitQ
      = (200, ApplicationList pg)"
  note r = getClassApplications_controller_200[OF a]
  show "getClassApplications env tie db c (page_param pageQ) (limit_param limitQ) = Some pg"
    by (rule r(1))
  show "1 \<le> page_param pageQ" "1 \<le> limit_param limitQ" by (rule r(2), rule r(3))
  show "limit_param limitQ \<le> 50" by (rule limit_param_le)
  show "items pg = take (nat (limit_param limitQ))
                   (drop (nat (page_param pageQ - 1) * nat (limit_param limitQ))
                      (orderBy_createdAt_asc tie
                         (filter (\<lambda>a. classId a = c) (applications db))))"
    using getClassApplications_Some(1)[OF r(1)]
    unfolding skip_take_in_range[OF r(2,3)] by simp
next
  assume a: "getUserApplications_controller env tie db u pageQ limitQ
      = (200, ApplicationList pg')"
  note r = getUserApplications_controller_200[OF a]
  show "getUserApplications env tie db u (page_param pageQ) (limit_param limitQ) = Some pg'"
    by (rule r(1))
  show "1 \<le> page_param pageQ" "1 \<le> limit_param limitQ" by (rule r(2), rule r(3))
  show "limit_param limitQ \<le> 50" by (rule limit_param_le)
  show "items pg' = take (nat (limit_param limitQ))
                   (drop (nat (page_param pageQ - 1) * nat (limit_param limitQ))
                      (orderBy_createdAt_desc tie
                         (filter (\<lambda>a. userId a = u) (applications db))))"
    using getUserApplications_Some[OF r(1)]
    unfolding skip_take_in_range[OF r(2,3)] by simp
qed

theorem listings_ordered_and_paginated_witness:
  "getClassApplications demo_env demo_tie demo_over demo_id 2 2
     = Some \<lparr>items = [\<lparr>userId = ''alice'', classId = demo_id, app_id = ''a-0'',
                         createdAt = 30\<rparr>],
             total = 3, totalPages = Finite 2\<rparr> \<and>
   getUserApplications demo_env demo_tie demo_over ''bob'' 1 10
     = Some \<lparr>items = [\<lparr>userId = ''bob'', classId = demo_id, app_id = ''a-1'',
                         createdAt = 10\<rparr>],
             total = 1, totalPages = Finite 1\<rparr> \<and>
   (1::int) \<le> 2 \<and> faults demo_env FindManyApplications = None \<and>
   getClassApplications_controller demo_env demo_tie demo_over ''admin'' False demo_id
       (Some 2) (Some 2)
     = (200, ApplicationList
              \<lparr>items = [\<lparr>userId = ''alice'', classId = demo_id, app_id = ''a-0'',
                         createdAt = 30\<rparr>],
               total = 3, totalPages = Finite 2\<rparr>) \<and>
   getUserApplications_controller demo_env demo_tie demo_over ''bob'' None None
     = (200, ApplicationList
              \<lparr>items = [\<lparr>userId = ''bob'', classId = demo_id, app_id = ''a-1'',
                         createdAt = 10\<rparr>],
               total = 1, totalPages = Finite 1\<rparr>) \<and>
   sorted_wrt (\<lambda>a b. createdAt a \<le> createdAt b)
     [\<lparr>userId = ''alice'', classId = demo_id, app_id = ''a-0'', createdAt = 30\<rparr>] \<and>
   getClassApplications demo_env demo_tie demo_over demo_id (page_param (Some 2))
       (limit_param (Some 2))
     = Some \<lparr>items = [\<lparr>userId = ''alice'', classId = demo_id, app_id = ''a-0'',
                         createdAt = 30\<rparr>],
             total = 3, totalPages = Finite 2\<rparr> \<and>
   getUserApplications demo_env demo_tie demo_over ''bob'' (page_param None) (limit_param None)
     = Some \<lparr>items = [\<lparr>userId = ''bob'', classId = demo_id, app_id = ''a-1'',
                         createdAt = 10\<rparr>],
             total = 1, totalPages = Finite 1\<rparr>"
proof -
  let ?pg = "\<lparr>items = [\<lparr>userId = ''alice'', classId = demo_id, app_id = ''a-0'',
                         createdAt = 30\<rparr>],
               total = 3, totalPages = Finite 2\<rparr>"
  let ?pg' = "\<lparr>items = [\<lparr>userId = ''bob'', classId = demo_id, app_id = ''a-1'',
                         createdAt = 10\<rparr>],
               total = 1, totalPages = Finite 1\<rparr>"
  have nf: "faults demo_env FindManyApplications = None"
    by (simp add: demo_env_def no_faults_def)
  have f: "mClass_findUnique demo_over demo_id = Some demo_class"
    by (simp add: mClass_findUnique_def demo_over_def demo_db_def demo_class_def)
  have n: "count_applications demo_over demo_id = 3"
    by (simp add: count_applications_def demo_over_def demo_db_def)
  have g: "getClassById demo_env demo_over demo_id
             = Inr (Some (MClass.extend demo_class (MClassWithStats.fields 3)))"
    by (simp add: getClassById_def f n demo_env_def no_faults_def demo_class_def)
  have h: "isUserHost demo_over demo_id ''admin''"
    by (simp add: isUserHost_def f demo_class_def)
  have l: "getClassApplications demo_env demo_tie demo_over demo_id 2 2 = Some ?pg"
    by (simp add: getClassApplications_def nf skip_take_def orderBy_createdAt_asc_def
                  demo_tie_def totalPages_of_def demo_over_def demo_db_def Let_def)
  have l': "getUserApplications demo_env demo_tie demo_over ''bob'' 1 10 = Some ?pg'"
    by (simp add: getUserApplications_def nf skip_take_def orderBy_createdAt_desc_def
                  demo_tie_def totalPages_of_def demo_over_def demo_db_def Let_def)
  have ne: "demo_id \<noteq> []" using demo_id_valid by (rule validateUUID_nonempty)
  have pl: "page_param (Some 2) = 2" "limit_param (Some 2) = 2" "page_param None = 1"
      "limit_param None = 10"
    by (simp_all add: page_param_def limit_param_def)
  have a1: "getClassApplications_controller demo_env demo_tie demo_over ''admin'' False demo_id
              (Some 2) (Some 2) = (200, ApplicationList ?pg)"
    by (simp add: getClassApplications_controller_def ne demo_id_valid g h l pl)
  have a2: "getUserApplications_controller demo_env demo_tie demo_over ''bob'' None None
              = (200, ApplicationList ?pg')"
    by (simp add: getUserApplications_controller_def l' pl)
  note T = listings_ordered_and_paginated[where env = demo_env and tie = demo_tie
      and db = demo_over and v = "''admin''" and isAdmin = False and c = demo_id
      and u = "''bob''" and pg = ?pg and pg' = ?pg' and page = 2 and limit = 2]
  have c1: "sorted_wrt (\<lambda>a b. createdAt a \<le> createdAt b) (items ?pg)"
    using T l by blast
  have c2: "getClassApplications demo_env demo_tie demo_over demo_id (page_param (Some 2))
       (limit_param (Some 2)) = Some ?pg"
    using T[where pageQ = "Some 2" and limitQ = "Some 2"] a1 by blast
  have c3: "getUserApplications demo_env demo_tie demo_over ''bob'' (page_param None)
       (limit_param None) = Some ?pg'"
    using T[where pageQ = None and limitQ = None] a2 by blast
  have c1': "sorted_wrt (\<lambda>a b. createdAt a \<le> createdAt b)
     [\<lparr>userId = ''alice'', classId = demo_id, app_id = ''a-0'', createdAt = 30\<rparr>]"
    using c1 by simp
  have two: "(1::int) \<le> 2" by simp
  show ?thesis using l l' two nf a1 a2 c1' c2 c3 by (intro conjI)
qed

section \<open>Statistics\<close>

text \<open>
  C10. Whatever the tables hold, also when a class has as many applications as seats or
  more: \<^verbatim>\<open>getApplicationStats\<close> and \<^verbatim>\<open>getClassStats\<close> return a result for every class of
  the store, with the number of applications of the class, its \<^verbatim>\<open>maxParticipants\<close>,
  \<open>availableSpots = max 0 (maxParticipants - current)\<close>, which is never negative, and
  \<open>isFullyBooked\<close> exactly when \<open>maxParticipants - current \<le> 0\<close>; the list entries of
  \<^verbatim>\<open>getClasses\<close> derive the same two values.
\<close>

theorem stats_never_negative:
  "(getApplicationStats db c = Some st \<longrightarrow>
      (\<exists>cls. mClass_findUnique db c = Some cls \<and> maxParticipants_a st = maxParticipants cls) \<and>
      currentApplications st = count_applications db c \<and>
      availableSpots_a st = max 0 (maxParticipants_a st - currentApplications st) \<and>
      0 \<le> availableSpots_a st \<and>
      isFullyBooked_a st = (maxParticipants_a st - currentApplications st \<le> 0)) \<and>
   (getClassStats db c = Some cs \<longrightarrow>
      (\<exists>cls. mClass_findUnique db c = Some cls \<and> maxParticipants_c cs = maxParticipants cls) \<and>
      currentParticipants_c cs = count_applications db c \<and>
      availableSpots_c cs = max 0 (maxParticipants_c cs - currentParticipants_c cs) \<and>
      0 \<le> availableSpots_c cs \<and>
      isFullyBooked_c cs = (maxParticipants_c cs - currentParticipants_c cs \<le> 0)) \<and>
   (mClass_findUnique db c \<noteq> None \<longrightarrow>
      getApplicationStats db c \<noteq> None \<and> getClassStats db c \<noteq> None) \<and>
   getClasses_availableSpots mc = max 0 (maxParticipants mc - currentParticipants mc) \<and>
   0 \<le> getClasses_availableSpots mc \<and>
   getClasses_isFullyBooked mc = (maxParticipants mc - currentParticipants mc \<le> 0)"
proof (intro conjI impI)
  assume a: "getApplicationStats db c = Some st"
  then obtain cls where cls: "mClass_findUnique db c = Some cls"
    by (auto simp: getApplicationStats_def split: option.splits)
  then have id: "class_id cls = c" by (simp add: mClass_findUnique_Some)
  have st: "st = \<lparr>currentApplications = count_applications db c,
                  maxParticipants_a = maxParticipants cls,
                  availableSpots_a = max 0 (maxParticipants cls - count_applications db c),
                  isFullyBooked_a = (maxParticipants cls - count_applications db c \<le> 0)\<rparr>"
    using a cls id by (simp add: getApplicationStats_def Let_def)
  show "\<exists>cls. mClass_findUnique db c = Some cls \<and> maxParticipants_a st = maxParticipants cls"
    using cls st by simp
  show "currentApplications st = count_applications db c" using st by simp
  show "availableSpots_a st = max 0 (maxParticipants_a st - currentApplications st)"
    using st by simp
  show "0 \<le> availableSpots_a st" using st by simp
  show "isFullyBooked_a st = (maxParticipants_a st - currentApplications st \<le> 0)"
    using st by simp
next
  assume a: "getClassStats db c = Some cs"
  then obtain cls where cls: "mClass_findUnique db c = Some cls"
    by (auto simp: getClassStats_def split: option.splits)
  then have id: "class_id cls = c" by (simp add: mClass_findUnique_Some)
  have cs: "cs = \<lparr>currentParticipants_c = count_applications db c,
                  maxParticipants_c = maxParticipants cls,
                  availableSpots_c = max 0 (maxParticipants cls - count_applications db c),
                  isFullyBooked_c = (maxParticipants cls - count_applications db c \<le> 0)\<rparr>"
    using a cls id by (simp add: getClassStats_def Let_def)
  show "\<exists>cls. mClass_findUnique db c = Some cls \<and> maxParticipants_c cs = maxParticipants cls"
    using cls cs by simp
  show "currentParticipants_c cs = count_applications db c" using cs by simp
  show "availableSpots_c cs = max 0 (maxParticipants_c cs - currentParticipants_c cs)"
    using cs by simp
  show "0 \<le> availableSpots_c cs" using cs by simp
  show "isFullyBooked_c cs = (maxParticipants_c cs - currentParticipants_c cs \<le> 0)"
    using cs by simp
next
  assume "mClass_findUnique db c \<noteq> None"
  then show "getApplicationStats db c \<noteq> None" "getClassStats db c \<noteq> None"
    by (auto simp: getApplicationStats_def getClassStats_def Let_def)
next
  show "getClasses_availableSpots mc = max 0 (maxParticipants mc - currentParticipants mc)"
    by (simp add: getClasses_availableSpots_def)
  show "0 \<le> getClasses_availableSpots mc" by (simp add: getClasses_availableSpots_def)
  show "getClasses_isFullyBooked mc = (maxParticipants mc - currentParticipants mc \<le> 0)"
    by (simp add: getClasses_isFullyBooked_def)
qed

theorem stats_never_negative_witness:
  "getApplicationStats demo_over demo_id
     = Some \<lparr>currentApplications = 3, maxParticipants_a = 2, availableSpots_a = 0,
             isFullyBooked_a = True\<rparr> \<and>
   getClassStats demo_over demo_id
     = Some \<lparr>currentParticipants_c = 3, maxParticipants_c = 2, availableSpots_c = 0,
             isFullyBooked_c = True\<rparr> \<and>
   mClass_findUnique demo_over demo_id \<noteq> None \<and>
   count_applications demo_over demo_id = 3 \<and>
   (0::int) \<le> availableSpots_a \<lparr>currentApplications = 3, maxParticipants_a = 2,
                    availableSpots_a = 0, isFullyBooked_a = True\<rparr> \<and>
   (0::int) \<le> availableSpots_c \<lparr>currentParticipants_c = 3, maxParticipants_c = 2,
                    availableSpots_c = 0, isFullyBooked_c = True\<rparr>"
proof -
  let ?st = "\<lparr>currentApplications = 3, maxParticipants_a = 2, availableSpots_a = 0,
             isFullyBooked_a = True\<rparr>"
  let ?cs = "\<lparr>currentParticipants_c = 3, maxParticipants_c = 2, availableSpots_c = 0,
             isFullyBooked_c = True\<rparr>"
  have f: "mClass_findUnique demo_over demo_id = Some demo_class"
    by (simp add: mClass_findUnique_def demo_over_def demo_db_def demo_class_def)
  have n: "count_applications demo_over demo_id = 3"
    by (simp add: count_applications_def demo_over_def demo_db_def)
  have a1: "getApplicationStats demo_over demo_id = Some ?st"
    by (simp add: getApplicationStats_def f n demo_class_def)
  have a2: "getClassStats demo_over demo_id = Some ?cs"
    by (simp add: getClassStats_def f n demo_class_def)
  note T = stats_never_negative[where db = demo_over and c = demo_id and st = ?st and cs = ?cs]
  have c1: "0 \<le> availableSpots_a ?st" using T a1 by blast
  have c2: "0 \<le> availableSpots_c ?cs" using T a2 by blast
  show ?thesis using a1 a2 f n c1 c2 by simp
qed

section \<open>Failures of the store during an apply call\<close>

lemma demo_P2034_tx:
  "createApplication_tx demo_env_P2034 demo_db \<lparr>userId = ''alice'', classId = demo_id\<rparr>
     = Inl (PrismaClientKnownRequestError ''P2034''
         ''Transaction failed due to a write conflict or a deadlock. Please retry your transaction'')"
  by (simp add: createApplication_tx_def demo_env_P2034_def demo_env_def)

lemma demo_P2034_class:
  "getClassById demo_env_P2034 demo_db demo_id
     = Inr (Some (MClass.extend demo_class (MClassWithStats.fields 0)))"
  by (simp add: getClassById_def demo_find demo_count demo_env_P2034_def demo_env_def
                demo_class_def)

text \<open>
  C5, as the code has it. \<^verbatim>\<open>createApplication\<close> runs its transaction once. When the
  transaction throws a Prisma request error with a code other than P2002 and P2003 (a
  write conflict, a lock timeout), \<^verbatim>\<open>createApplication\<close> throws that same error; the
  handler then answers 500 \<^verbatim>\<open>INTERNAL_SERVER_ERROR\<close> and leaves the tables as they were,
  unless the message of the error contains one of the four texts the handler looks for.
\<close>

theorem transient_errors_surface:
  assumes "createApplication_tx env db \<lparr>userId = u, classId = c\<rparr>
             = Inl (PrismaClientKnownRequestError code m)"
    and "code \<noteq> ''P2002''" and "code \<noteq> ''P2003''"
  shows "createApplication env db \<lparr>userId = u, classId = c\<rparr>
           = Inl (PrismaClientKnownRequestError code m) \<and>
         (isValid (validateUUID c) \<and> getClassById env db c = Inr (Some mclass) \<and>
          now env < startAt mclass \<and>
          \<not> str_includes m ''already applied'' \<and> \<not> str_includes m ''Class is fully booked'' \<and>
          \<not> str_includes m ''Class not found'' \<and>
          \<not> str_includes m ''Invalid user ID or class ID'' \<longrightarrow>
            applyToClass env db u c =
              ((500, ErrorBody ''INTERNAL_SERVER_ERROR'' ''Failed to submit application'' []), db))"
proof (intro conjI impI)
  show r: "createApplication env db \<lparr>userId = u, classId = c\<rparr>
           = Inl (PrismaClientKnownRequestError code m)"
    using assms by (simp add: createApplication_def)
  assume h: "isValid (validateUUID c) \<and> getClassById env db c = Inr (Some mclass) \<and>
          now env < startAt mclass \<and>
          \<not> str_includes m ''already applied'' \<and> \<not> str_includes m ''Class is fully booked'' \<and>
          \<not> str_includes m ''Class not found'' \<and>
          \<not> str_includes m ''Invalid user ID or class ID''"
  then have ne: "c \<noteq> []" using validateUUID_nonempty by blast
  have "applyToClass_catch (PrismaClientKnownRequestError code m) =
          (500, ErrorBody ''INTERNAL_SERVER_ERROR'' ''Failed to submit application'' [])"
    using h by (simp add: applyToClass_catch_def)
  then show "applyToClass env db u c =
              ((500, ErrorBody ''INTERNAL_SERVER_ERROR'' ''Failed to submit application'' []), db)"
    using h ne r by (simp add: applyToClass_def)
qed

theorem transient_errors_surface_witness:
  "createApplication_tx demo_env_P2034 demo_db \<lparr>userId = ''alice'', classId = demo_id\<rparr>
     = Inl (PrismaClientKnownRequestError ''P2034''
         ''Transaction failed due to a write conflict or a deadlock. Please retry your transaction'') \<and>
   ''P2034'' \<noteq> ''P2002'' \<and> ''P2034'' \<noteq> ''P2003'' \<and>
   createApplication demo_env_P2034 demo_db \<lparr>userId = ''alice'', classId = demo_id\<rparr>
     = Inl (PrismaClientKnownRequestError ''P2034''
         ''Transaction failed due to a write conflict or a deadlock. Please retry your transaction'') \<and>
   applyToClass demo_env_P2034 demo_db ''alice'' demo_id =
     ((500, ErrorBody ''INTERNAL_SERVER_ERROR'' ''Failed to submit application'' []), demo_db)"
proof -
  let ?m = "''Transaction failed due to a write conflict or a deadlock. Please retry your transaction''"
  let ?mc = "MClass.extend demo_class (MClassWithStats.fields (0::int))"
  have h2: "''P2034'' \<noteq> ''P2002''" "''P2034'' \<noteq> ''P2003''" by simp_all
  have h3: "now demo_env_P2034 < startAt ?mc"
    by (simp add: demo_env_P2034_def demo_env_def demo_class_def)
  have h4: "\<not> str_includes ?m ''already applied''" "\<not> str_includes ?m ''Class is fully booked''"
      "\<not> str_includes ?m ''Class not found''" "\<not> str_includes ?m ''Invalid user ID or class ID''"
    by simp_all
  note T = transient_errors_surface[OF demo_P2034_tx h2, where mclass = ?mc]
  show ?thesis
    using T demo_P2034_tx h2 h3 h4 demo_id_valid demo_P2034_class by blast
qed

text \<open>
  C5 as stated fails: the store reports a write conflict at the first query of bob's
  transaction; \<^verbatim>\<open>createApplication\<close> throws the Prisma error itself and the handler
  answers 500, although the same call is admitted when the store does not fail.
\<close>

theorem transient_errors_retried_counterexample:
  "createApplication demo_env_P2034 demo_one \<lparr>userId = ''bob'', classId = demo_id\<rparr>
     = Inl (PrismaClientKnownRequestError ''P2034''
         ''Transaction failed due to a write conflict or a deadlock. Please retry your transaction'') \<and>
   fst (applyToClass demo_env_P2034 demo_one ''bob'' demo_id)
     = (500, ErrorBody ''INTERNAL_SERVER_ERROR'' ''Failed to submit application'' []) \<and>
   is_Admitted (fst (applyToClass demo_env demo_one ''bob'' demo_id))"
proof -
  have tx: "createApplication_tx demo_env_P2034 demo_one \<lparr>userId = ''bob'', classId = demo_id\<rparr>
     = Inl (PrismaClientKnownRequestError ''P2034''
         ''Transaction failed due to a write conflict or a deadlock. Please retry your transaction'')"
    by (simp add: createApplication_tx_def demo_env_P2034_def demo_env_def)
  then have a: "createApplication demo_env_P2034 demo_one \<lparr>userId = ''bob'', classId = demo_id\<rparr>
     = Inl (PrismaClientKnownRequestError ''P2034''
         ''Transaction failed due to a write conflict or a deadlock. Please retry your transaction'')"
    by (simp add: createApplication_def)
  have g: "getClassById demo_env_P2034 demo_one demo_id
     = Inr (Some (MClass.extend demo_class (MClassWithStats.fields 1)))"
    by (simp add: getClassById_def demo_find demo_count demo_env_P2034_def demo_env_def
                  demo_class_def)
  have ne: "demo_id \<noteq> []" using demo_id_valid by (rule validateUUID_nonempty)
  have t: "now demo_env_P2034 = 0" by (simp add: demo_env_P2034_def demo_env_def)
  have b: "fst (applyToClass demo_env_P2034 demo_one ''bob'' demo_id)
     = (500, ErrorBody ''INTERNAL_SERVER_ERROR'' ''Failed to submit application'' [])"
    by (simp add: applyToClass_def ne demo_id_valid g a applyToClass_catch_def t
                  demo_class_def)
  have nb: "application_findUnique demo_one ''bob'' demo_id = None"
    by (simp add: application_findUnique_def demo_one_def demo_db_def)
  have ub: "''bob'' \<in> set (users demo_one)" by (simp add: demo_one_def demo_db_def)
  have "applyToClass demo_env demo_one ''bob'' demo_id =
     ((201, ApplicationSubmitted
              \<lparr>userId = ''bob'', classId = demo_id, app_id = newId demo_env,
               createdAt = newCreatedAt demo_env\<rparr>
              (MClass.extend demo_class
                 (MClassWithStats.fields (count_applications demo_one demo_id)))),
      demo_one\<lparr>applications := applications demo_one @
            [\<lparr>userId = ''bob'', classId = demo_id, app_id = newId demo_env,
              createdAt = newCreatedAt demo_env\<rparr>]\<rparr>)"
    using demo_id_valid demo_find(2) _ _ _ nb ub
    by (rule apply_success) (simp_all add: demo_env_def demo_class_def demo_count)
  then have c: "is_Admitted (fst (applyToClass demo_env demo_one ''bob'' demo_id))"
    by (simp add: is_Admitted_def)
  show ?thesis using a b c by (intro conjI)
qed

section \<open>Creating a class: the duration\<close>

text \<open>
  C6 on the code. The handler mounted on \<^verbatim>\<open>POST /api/mclasses\<close> creates a class that
  lasts one minute and a class that lasts three days (answer 201, the row is inserted);
  the validator \<^verbatim>\<open>mclassValidation.create\<close>, which no route mounts, refuses both dates.
\<close>

theorem createClass_ignores_duration:
  "createClass_controller demo_env_create demo_db ''admin'' short_body =
     ((201, ClassCreated
              \<lparr>title = ''Flash class'', description = ''Over in a minute'', maxParticipants = 5,
               startAt = 60000, endAt = 120000, hostId = ''admin'', class_id = other_id\<rparr>),
      demo_db\<lparr>mclasses := mclasses demo_db @
         [\<lparr>title = ''Flash class'', description = ''Over in a minute'', maxParticipants = 5,
           startAt = 60000, endAt = 120000, hostId = ''admin'', class_id = other_id\<rparr>]\<rparr>) \<and>
   mclassValidation_create_endAt 0 60000 120000
     = Some ''Class duration must be at least 30 minutes'' \<and>
   createClass_controller demo_env_create demo_db ''admin'' long_body =
     ((201, ClassCreated
              \<lparr>title = ''Marathon'', description = ''Three days in a row'', maxParticipants = 5,
               startAt = 60000, endAt = 259260000, hostId = ''admin'', class_id = other_id\<rparr>),
      demo_db\<lparr>mclasses := mclasses demo_db @
         [\<lparr>title = ''Marathon'', description = ''Three days in a row'', maxParticipants = 5,
           startAt = 60000, endAt = 259260000, hostId = ''admin'', class_id = other_id\<rparr>]\<rparr>) \<and>
   mclassValidation_create_endAt 0 60000 259260000
     = Some ''Class duration must not exceed 8 hours''"
proof -
  have f: "mClass_findUnique demo_db other_id = None"
    by (simp add: mClass_findUnique_def demo_db_def demo_class_def demo_id_def other_id_def)
  have u: "''admin'' \<in> set (users demo_db)" by (simp add: demo_db_def)
  have c: "createClass demo_env_create demo_db d
             = Inr (CreateMClassData.extend d (MClass.fields other_id),
                    demo_db\<lparr>mclasses := mclasses demo_db @
                       [CreateMClassData.extend d (MClass.fields other_id)]\<rparr>)"
    if "hostId d = ''admin''" "maxParticipants d = 5" "startAt d = 60000"
      "endAt d \<le> 259260000" for d
    using that f u
    by (simp add: createClass_def mClass_create_def demo_env_create_def demo_env_def
                  no_faults_def Let_def CreateMClassData.extend_def MClass.fields_def)
  have n: "now demo_env_create = 0" by (simp add: demo_env_create_def demo_env_def)
  show ?thesis
    by (simp add: createClass_controller_def short_body_def long_body_def c n
                  mclassValidation_create_endAt_def CreateMClassData.extend_def
                  MClass.fields_def)
qed

end
